theory Spec2Isabelle
  imports Main "HOL-Library.Word" "HOL-Library.Signed_Division"
begin

section \<open>The block-mapping layer of the file system (filesys/inode.c)\<close>

text \<open>
  A shallow embedding of \<^verbatim>\<open>src/filesys/inode.c\<close>. Every function that touches the
  device or the free map takes the file-system state and returns the new one. The state
  carries a log of every device and free-map operation, newest first, so that the order
  of the effects can be stated.
\<close>

subsection \<open>Types and constants\<close>

type_synonym block_sector_t = "32 word"
type_synonym off_t = int
type_synonym byte = "8 word"

text \<open>
  \<^verbatim>\<open>off_t\<close> and \<^verbatim>\<open>int\<close> are signed 32-bit integers, modelled as \<^typ>\<open>int\<close>. A sum
  or difference that can leave the range is brought back into it by \<open>off_t_of\<close>:
  two's complement wrap-around, which is what the code does on the i386 (C leaves signed
  overflow undefined). \<open>off_t_range\<close> says that an integer is a value of the type.
  \<^verbatim>\<open>size_t\<close> counts of sectors are \<^typ>\<open>nat\<close>: wherever the code decrements
  or subtracts one, the subtrahend is at most the count, so no wrap-around occurs.
  C's \<^verbatim>\<open>/\<close> and \<^verbatim>\<open>%\<close> on signed operands truncate towards zero:
  \<open>sdiv\<close> and \<open>smod\<close>.
\<close>

definition off_t_of :: "int \<Rightarrow> off_t" where
  "off_t_of x = (x + 2147483648) mod 4294967296 - 2147483648"

definition off_t_range :: "int \<Rightarrow> bool" where
  "off_t_range x = (- 2147483648 \<le> x \<and> x \<le> 2147483647)"

abbreviation BLOCK_SECTOR_SIZE :: int where "BLOCK_SECTOR_SIZE \<equiv> 512"
abbreviation NUM_INDIRECT_PTRS :: nat where "NUM_INDIRECT_PTRS \<equiv> 128"
abbreviation NUM_DBL_INDIRECT_PTRS :: nat where "NUM_DBL_INDIRECT_PTRS \<equiv> 16384"
abbreviation INODE_MAGIC :: "32 word" where "INODE_MAGIC \<equiv> 0x494e4f44"

text \<open>
  \<^verbatim>\<open>NUM_DIRECT_BLOCKS\<close> is declared in \<^verbatim>\<open>filesys/inode.h\<close>, which is not among the
  sources. Every function that uses it takes it as its first argument \<open>nd\<close>.
\<close>

text \<open>
  The on-disk inode: \<^verbatim>\<open>struct inode_disk\<close>, with the fields inode.c uses;
  \<open>length_d\<close> is its field \<^verbatim>\<open>length\<close>.
\<close>

record inode_disk =
  length_d :: off_t
  magic :: "32 word"
  dir :: bool
  direct_blocks :: "block_sector_t list"
  indirect_block :: block_sector_t
  doubly_indirect_block :: block_sector_t

text \<open>The in-memory inode: \<^verbatim>\<open>struct inode\<close> (the list element apart).\<close>

record inode =
  sector :: block_sector_t
  open_cnt :: int
  removed :: bool
  deny_write_cnt :: int
  data :: inode_disk

datatype error = Out_of_bounds | Assertion_failed

subsection \<open>The sector device and the free map\<close>

text \<open>
  What a sector holds is tagged by the C object that was last written to it: a buffer of
  bytes, a \<^verbatim>\<open>struct indirect_block_ptr\<close> or a \<^verbatim>\<open>struct inode_disk\<close>.
\<close>

datatype contents =
    Data "byte list"
  | Index "block_sector_t list"
  | Record inode_disk

datatype event =
    Ev_read block_sector_t
  | Ev_write block_sector_t contents
  | Ev_alloc "block_sector_t option"
  | Ev_release block_sector_t

record fs_state =
  disk :: "block_sector_t \<Rightarrow> contents"
  free_map :: "block_sector_t list"
  trace :: "event list"

text \<open>\<^verbatim>\<open>static char zeros[BLOCK_SECTOR_SIZE]\<close>\<close>

definition zeros :: contents where
  "zeros = Data (replicate 512 0)"

text \<open>
  Modelled from the spec: the sector device (devices/block.c is not among the sources).
  Section 6: \<^verbatim>\<open>read(sector_id, out_buffer)\<close> and \<^verbatim>\<open>write(sector_id, in_buffer)\<close> on
  512-byte buffers, which always succeed.
\<close>

definition block_read :: "'a fs_state_scheme \<Rightarrow> block_sector_t \<Rightarrow> contents \<times> 'a fs_state_scheme" where
  "block_read st s = (disk st s, st\<lparr>trace := Ev_read s # trace st\<rparr>)"

definition block_write :: "'a fs_state_scheme \<Rightarrow> block_sector_t \<Rightarrow> contents \<Rightarrow> 'a fs_state_scheme" where
  "block_write st s c = st\<lparr>disk := (disk st)(s := c), trace := Ev_write s c # trace st\<rparr>"

text \<open>
  Modelled from the spec: the free-space allocator (filesys/free-map.c is not among the
  sources). Section 6: \<^verbatim>\<open>allocate(count) \<rightarrow> sector_id | failure\<close>, only ever called
  with count 1, and \<^verbatim>\<open>release(sector_id, count)\<close>. The free map is the list of the
  available sectors; a request takes the first one and fails on the empty list, leaving
  the caller's pointer slot as it was.
\<close>

definition free_map_allocate :: "'a fs_state_scheme \<Rightarrow> block_sector_t option \<times> 'a fs_state_scheme" where
  "free_map_allocate st =
     (case free_map st of
        [] \<Rightarrow> (None, st\<lparr>trace := Ev_alloc None # trace st\<rparr>)
      | s # rest \<Rightarrow> (Some s, st\<lparr>free_map := rest, trace := Ev_alloc (Some s) # trace st\<rparr>))"

definition free_map_release :: "'a fs_state_scheme \<Rightarrow> block_sector_t \<Rightarrow> 'a fs_state_scheme" where
  "free_map_release st s = st\<lparr>free_map := s # free_map st, trace := Ev_release s # trace st\<rparr>"

subsection \<open>Views of a sector\<close>

text \<open>
  Modelled from the spec: the byte layout of a sector (x86, little-endian 32-bit words) and
  of the inode record, whose declaration in filesys/inode.h is not among the sources; the
  field order is the one of section 3: length, tag, directory flag, direct pointers,
  indirect pointer, doubly-indirect pointer, padding. These conversions only matter when
  a sector is read as something else than what was written to it.
\<close>

definition word_bytes :: "32 word \<Rightarrow> byte list" where
  "word_bytes w = [ucast w, ucast (drop_bit 8 w), ucast (drop_bit 16 w), ucast (drop_bit 24 w)]"

fun le_words :: "byte list \<Rightarrow> 32 word list" where
  "le_words (a # b # c # d # rest) =
     (ucast a + push_bit 8 (ucast b) + push_bit 16 (ucast c) + push_bit 24 (ucast d)) # le_words rest"
| "le_words _ = []"

definition record_words :: "inode_disk \<Rightarrow> 32 word list" where
  "record_words d =
     take 128 ([word_of_int (length_d d), magic d, of_bool (dir d)] @ direct_blocks d
               @ [indirect_block d, doubly_indirect_block d] @ replicate 128 0)"

fun words_of :: "contents \<Rightarrow> 32 word list" where
  "words_of (Index ps) = ps"
| "words_of (Data bs) = le_words bs"
| "words_of (Record d) = record_words d"

text \<open>\<^verbatim>\<open>block_read (fs_device, s, &indirect_block)\<close>: the sector as 128 pointers.\<close>

definition ptrs_of :: "contents \<Rightarrow> block_sector_t list" where
  "ptrs_of c = words_of c"

text \<open>\<^verbatim>\<open>block_read (fs_device, s, buffer)\<close>: the sector as 512 bytes.\<close>

fun bytes_of :: "contents \<Rightarrow> byte list" where
  "bytes_of (Data bs) = bs"
| "bytes_of c = concat (map word_bytes (words_of c))"

text \<open>\<^verbatim>\<open>block_read (fs_device, s, &inode->data)\<close>: the sector as an inode record.\<close>

fun record_of :: "nat \<Rightarrow> contents \<Rightarrow> inode_disk" where
  "record_of nd (Record d) = d"
| "record_of nd c =
     (let ws = words_of c @ replicate 128 0
      in \<lparr>length_d = sint (ws ! 0), magic = ws ! 1, dir = (ws ! 2 \<noteq> 0),
          direct_blocks = take nd (drop 3 ws),
          indirect_block = ws ! (3 + nd), doubly_indirect_block = ws ! (4 + nd)\<rparr>)"

subsection \<open>bytes_to_sectors\<close>

text \<open>
  \<^verbatim>\<open>DIV_ROUND_UP (size, BLOCK_SECTOR_SIZE)\<close> is \<^verbatim>\<open>(size + 512 - 1) / 512\<close> in signed
  32-bit arithmetic, converted to \<^verbatim>\<open>size_t\<close> (modulo \<open>2 ^ 32\<close>).
\<close>

definition bytes_to_sectors :: "off_t \<Rightarrow> nat" where
  "bytes_to_sectors sz =
     nat ((off_t_of (sz + BLOCK_SECTOR_SIZE - 1) sdiv BLOCK_SECTOR_SIZE) mod 2 ^ 32)"

subsection \<open>inode_alloc and inode_alloc_iblock\<close>

text \<open>
  The first loop of \<^verbatim>\<open>inode_alloc\<close> over the direct pointers. The result is
  \<open>Some b\<close> when the loop leaves the function with \<^verbatim>\<open>return b\<close>, and \<open>None\<close> when
  the loop ends and the function goes on; with it come the remaining count, the record
  and the state.
\<close>

function inode_alloc_direct ::
  "'a fs_state_scheme \<Rightarrow> inode_disk \<Rightarrow> nat \<Rightarrow> nat \<Rightarrow> nat
     \<Rightarrow> bool option \<times> nat \<times> inode_disk \<times> 'a fs_state_scheme" where
  "inode_alloc_direct st d sector_size index limit =
     (if index < limit then
        (if direct_blocks d ! index = 0 then
           (case free_map_allocate st of
              (Some s, st1) \<Rightarrow>
                (let d1 = d\<lparr>direct_blocks := (direct_blocks d)[index := s]\<rparr>;
                     st2 = block_write st1 s zeros;
                     sector_size1 = sector_size - 1
                 in if sector_size1 \<le> 0 then (Some True, sector_size1, d1, st2)
                    else inode_alloc_direct st2 d1 sector_size1 (index + 1) limit)
            | (None, st1) \<Rightarrow> (Some False, sector_size, d, st1))
         else inode_alloc_direct st d sector_size (index + 1) limit)
      else (None, sector_size, d, st))"
  by pat_completeness auto
termination
  by (relation "measure (\<lambda>(st, d, sector_size, index, limit). limit - index)") auto

text \<open>
  \<^verbatim>\<open>inode_alloc_iblock (sector, sector_size, height)\<close>. The pointer \<^verbatim>\<open>*sector\<close> is passed
  by value and returned. \<open>alloc_while\<close> is the \<^verbatim>\<open>while (height > 0)\<close> loop, whose local
  \<^verbatim>\<open>unit\<close> survives from one round to the next, and \<open>alloc_for\<close> the \<^verbatim>\<open>for\<close> loop
  inside it (\<open>blk\<close> is the local \<^verbatim>\<open>indirect_block\<close>), which returns \<open>False\<close>
  first when it leaves the function with \<^verbatim>\<open>return false\<close>.
\<close>

function inode_alloc_iblock ::
    "'a fs_state_scheme \<Rightarrow> block_sector_t \<Rightarrow> nat \<Rightarrow> nat \<Rightarrow> bool \<times> block_sector_t \<times> 'a fs_state_scheme"
  and alloc_while ::
    "'a fs_state_scheme \<Rightarrow> block_sector_t \<Rightarrow> nat \<Rightarrow> nat \<Rightarrow> nat \<Rightarrow> bool \<times> block_sector_t \<times> 'a fs_state_scheme"
  and alloc_for ::
    "'a fs_state_scheme \<Rightarrow> block_sector_t \<Rightarrow> block_sector_t list \<Rightarrow> nat \<Rightarrow> nat \<Rightarrow> nat \<Rightarrow> nat \<Rightarrow> nat
       \<Rightarrow> bool \<times> nat \<times> 'a fs_state_scheme" where
  "inode_alloc_iblock st sec sector_size height = alloc_while st sec sector_size height 1"
| "alloc_while st sec sector_size height unit =
     (if height > 0 then
        (let (sec1, st1) =
               (if sec = 0 then
                  (case free_map_allocate st of
                     (r, sta) \<Rightarrow>
                       (let s = (case r of Some s \<Rightarrow> s | None \<Rightarrow> sec)
                        in (s, block_write sta s zeros)))
                else (sec, st));
             (c, st2) = block_read st1 sec1;
             unit1 = (if height = 2 then NUM_INDIRECT_PTRS else unit);
             limit = sector_size div unit1
         in (case alloc_for st2 sec1 (ptrs_of c) sector_size height unit1 0 limit of
               (False, sector_size1, st3) \<Rightarrow> (False, sec1, st3)
             | (True, sector_size1, st3) \<Rightarrow> alloc_while st3 sec1 sector_size1 (height - 1) unit1))
      else (True, sec, st))"
| "alloc_for st sec blk sector_size height unit index limit =
     (if index < limit then
        (let sz = (if sector_size < unit then sector_size else unit)
         in if height = 1 then
              (if blk ! index = 0 then
                 (case free_map_allocate st of
                    (Some s, st1) \<Rightarrow>
                      (let blk1 = blk[index := s];
                           st2 = block_write st1 s zeros;
                           st3 = block_write st2 sec (Index blk1)
                       in alloc_for st3 sec blk1 (sector_size - sz) height unit (index + 1) limit)
                  | (None, st1) \<Rightarrow> (False, sector_size, st1))
               else
                 (let st1 = block_write st sec (Index blk)
                  in alloc_for st1 sec blk (sector_size - sz) height unit (index + 1) limit))
            else
              (case inode_alloc_iblock st (blk ! index) sz (height - 1) of
                 (True, e, st1) \<Rightarrow>
                   (let blk1 = blk[index := e];
                        st2 = block_write st1 sec (Index blk1)
                    in alloc_for st2 sec blk1 (sector_size - sz) height unit (index + 1) limit)
               | (False, e, st1) \<Rightarrow> (False, sector_size, st1)))
      else (True, sector_size, st))"
  by pat_completeness auto
termination
  by (relation "inv_image (less_than <*lex*> less_than)
        (\<lambda>x. case x of
           Inl (st, sec, sector_size, height) \<Rightarrow>
             (if height = 0 then 1 else 3 * height + 2, 0)
         | Inr (Inl (st, sec, sector_size, height, unit)) \<Rightarrow>
             (if height = 0 then 0 else 3 * height + 1, 0)
         | Inr (Inr (st, sec, blk, sector_size, height, unit, index, limit)) \<Rightarrow>
             (if height = 0 then 2 else 3 * height, limit - index))")
     auto

text \<open>\<^verbatim>\<open>inode_alloc (disk_inode, length)\<close>: returns the result and the record as it leaves it.\<close>

definition inode_alloc ::
  "nat \<Rightarrow> 'a fs_state_scheme \<Rightarrow> inode_disk \<Rightarrow> off_t \<Rightarrow> bool \<times> inode_disk \<times> 'a fs_state_scheme" where
  "inode_alloc nd st d len =
     (let sector_size = bytes_to_sectors len;
          limit = (if sector_size < nd then sector_size else nd)
      in case inode_alloc_direct st d sector_size 0 limit of
           (Some b, sector_size1, d1, st1) \<Rightarrow> (b, d1, st1)
         | (None, sector_size1, d1, st1) \<Rightarrow>
             (let indirect_limit = (if sector_size1 < NUM_INDIRECT_PTRS then sector_size1 else NUM_INDIRECT_PTRS)
              in case (if indirect_limit > 0
                       then inode_alloc_iblock st1 (indirect_block d1) indirect_limit 1
                       else (True, indirect_block d1, st1)) of
                   (False, s, st2) \<Rightarrow> (False, d1\<lparr>indirect_block := s\<rparr>, st2)
                 | (True, s, st2) \<Rightarrow>
                     (let d2 = d1\<lparr>indirect_block := s\<rparr>;
                          sector_size2 = sector_size1 - indirect_limit
                      in if sector_size2 \<le> 0 then (True, d2, st2)
                         else
                           (let dbl_indirect_limit =
                                  (if sector_size2 < NUM_DBL_INDIRECT_PTRS then sector_size2
                                   else NUM_DBL_INDIRECT_PTRS)
                            in case (if dbl_indirect_limit > 0
                                     then inode_alloc_iblock st2 (doubly_indirect_block d2) dbl_indirect_limit 2
                                     else (True, doubly_indirect_block d2, st2)) of
                                 (False, s, st3) \<Rightarrow> (False, d2\<lparr>doubly_indirect_block := s\<rparr>, st3)
                               | (True, s, st3) \<Rightarrow>
                                   (sector_size2 - dbl_indirect_limit \<le> 0,
                                    d2\<lparr>doubly_indirect_block := s\<rparr>, st3)))))"

subsection \<open>byte_to_sector\<close>

text \<open>
  \<^verbatim>\<open>byte_to_sector (inode, pos)\<close>. An index outside an array is undefined behaviour in
  C; the model returns \<open>Inl Out_of_bounds\<close> there. In the doubly-indirect branch the
  index of the last read is \<^verbatim>\<open>pos - (indirect_idx) % NUM_INDIRECT_PTRS\<close>, in which
  \<^verbatim>\<open>%\<close> binds tighter than \<^verbatim>\<open>-\<close>. The unchecked \<^verbatim>\<open>malloc\<close> of the temporary block is
  taken to succeed.
\<close>

definition byte_to_sector ::
  "nat \<Rightarrow> 'a fs_state_scheme \<Rightarrow> inode \<Rightarrow> off_t \<Rightarrow> (error + block_sector_t) \<times> 'a fs_state_scheme" where
  "byte_to_sector nd st inode pos =
     (let indirect_idx = int nd + int NUM_INDIRECT_PTRS;
          double_indirect_idx = indirect_idx + int NUM_DBL_INDIRECT_PTRS
      in if pos < length_d (data inode) then
           (let pos1 = pos sdiv BLOCK_SECTOR_SIZE;
                disk_inode = data inode
            in if pos1 < int nd then
                 (if 0 \<le> pos1 then (Inr (direct_blocks disk_inode ! nat pos1), st)
                  else (Inl Out_of_bounds, st))
               else if pos1 < indirect_idx then
                 (let (c, st1) = block_read st (indirect_block disk_inode)
                  in (Inr (ptrs_of c ! nat (pos1 - int nd)), st1))
               else if pos1 < double_indirect_idx then
                 (let (c, st1) = block_read st (doubly_indirect_block disk_inode);
                      (c2, st2) = block_read st1 (ptrs_of c ! nat ((pos1 - indirect_idx) sdiv int NUM_INDIRECT_PTRS));
                      idx = pos1 - (indirect_idx smod int NUM_INDIRECT_PTRS)
                  in if idx < int NUM_INDIRECT_PTRS then (Inr (ptrs_of c2 ! nat idx), st2)
                     else (Inl Out_of_bounds, st2))
               else (Inr (- 1), st))
         else (Inr (- 1), st))"

subsection \<open>inode_create\<close>

text \<open>
  \<^verbatim>\<open>inode_create (sector, length, is_dir)\<close>. \<open>calloc_ok\<close> says whether \<^verbatim>\<open>calloc\<close>
  returns memory; the fresh record is all zero.
\<close>

definition inode_create ::
  "nat \<Rightarrow> bool \<Rightarrow> 'a fs_state_scheme \<Rightarrow> block_sector_t \<Rightarrow> off_t \<Rightarrow> bool
     \<Rightarrow> (error + bool) \<times> 'a fs_state_scheme" where
  "inode_create nd calloc_ok st sec len is_dir =
     (if \<not> (len \<ge> 0) then (Inl Assertion_failed, st)
      else if \<not> calloc_ok then (Inr False, st)
      else
        (let disk_inode = \<lparr>length_d = len, magic = INODE_MAGIC, dir = is_dir,
                           direct_blocks = replicate nd 0,
                           indirect_block = 0, doubly_indirect_block = 0\<rparr>
         in case inode_alloc nd st disk_inode (length_d disk_inode) of
              (True, d1, st1) \<Rightarrow> (Inr True, block_write st1 sec (Record d1))
            | (False, d1, st1) \<Rightarrow> (Inr False, st1)))"

subsection \<open>inode_read_at and inode_write_at\<close>

definition inode_length :: "inode \<Rightarrow> off_t" where
  "inode_length inode = length_d (data inode)"

text \<open>
  The loop of \<^verbatim>\<open>inode_read_at\<close>. \<open>buffer\<close> holds the \<open>bytes_read\<close> bytes delivered
  so far, \<open>bounce\<close> says whether the bounce buffer has been allocated, and
  \<open>bounce_ok\<close> whether its \<^verbatim>\<open>malloc\<close> succeeds. With a negative \<^verbatim>\<open>sector_ofs\<close> the
  \<^verbatim>\<open>memcpy\<close> would read before the bounce buffer. Of the sums and differences,
  \<^verbatim>\<open>inode_length (inode) - offset\<close> and \<^verbatim>\<open>offset += chunk_size\<close> can leave the range;
  \<^verbatim>\<open>sector_ofs\<close> lies between \<open>-511\<close> and \<open>511\<close>, and a \<^verbatim>\<open>chunk_size\<close> that is
  subtracted from \<^verbatim>\<open>size\<close> and added to \<^verbatim>\<open>bytes_read\<close> is positive and at most
  \<^verbatim>\<open>size\<close>, while \<^verbatim>\<open>bytes_read + size\<close> stays what \<^verbatim>\<open>size\<close> was at the call.
\<close>

function read_loop ::
  "nat \<Rightarrow> bool \<Rightarrow> 'a fs_state_scheme \<Rightarrow> inode \<Rightarrow> off_t \<Rightarrow> off_t \<Rightarrow> off_t \<Rightarrow> byte list \<Rightarrow> bool
     \<Rightarrow> (error + off_t \<times> byte list) \<times> 'a fs_state_scheme" where
  "read_loop nd bounce_ok st inode sz offset bytes_read buffer bounce =
     (if sz > 0 then
        (case byte_to_sector nd st inode offset of
           (Inl e, st1) \<Rightarrow> (Inl e, st1)
         | (Inr sector_idx, st1) \<Rightarrow>
             (let sector_ofs = offset smod BLOCK_SECTOR_SIZE;
                  inode_left = off_t_of (inode_length inode - offset);
                  sector_left = BLOCK_SECTOR_SIZE - sector_ofs;
                  min_left = (if inode_left < sector_left then inode_left else sector_left);
                  chunk_size = (if sz < min_left then sz else min_left)
              in if chunk_size \<le> 0 then (Inr (bytes_read, buffer), st1)
                 else if sector_ofs = 0 \<and> chunk_size = BLOCK_SECTOR_SIZE then
                   (let (c, st2) = block_read st1 sector_idx
                    in read_loop nd bounce_ok st2 inode (sz - chunk_size) (off_t_of (offset + chunk_size))
                         (bytes_read + chunk_size) (buffer @ bytes_of c) bounce)
                 else if \<not> bounce \<and> \<not> bounce_ok then (Inr (bytes_read, buffer), st1)
                 else
                   (let (c, st2) = block_read st1 sector_idx
                    in if sector_ofs < 0 then (Inl Out_of_bounds, st2)
                       else read_loop nd bounce_ok st2 inode (sz - chunk_size) (off_t_of (offset + chunk_size))
                              (bytes_read + chunk_size)
                              (buffer @ take (nat chunk_size) (drop (nat sector_ofs) (bytes_of c))) True)))
      else (Inr (bytes_read, buffer), st))"
  by pat_completeness auto
termination
  by (relation "measure (\<lambda>(nd, bounce_ok, st, inode, sz, offset, bytes_read, buffer, bounce). nat sz)")
     (auto split: if_splits)

text \<open>\<^verbatim>\<open>inode_read_at (inode, buffer_, size, offset)\<close>: the count and the bytes delivered.\<close>

definition inode_read_at ::
  "nat \<Rightarrow> bool \<Rightarrow> 'a fs_state_scheme \<Rightarrow> inode \<Rightarrow> off_t \<Rightarrow> off_t
     \<Rightarrow> (error + off_t \<times> byte list) \<times> 'a fs_state_scheme" where
  "inode_read_at nd bounce_ok st inode sz offset = read_loop nd bounce_ok st inode sz offset 0 [] False"

text \<open>
  The value of \<^verbatim>\<open>bytes_read\<close> that \<^verbatim>\<open>inode_read_at\<close> returns. No test of the loop looks
  at the sector that \<^verbatim>\<open>byte_to_sector\<close> returns or at a byte that is copied, so the count
  is a function of the sizes and of the \<^verbatim>\<open>malloc\<close> alone: this is the same loop with
  the three transfers (\<^verbatim>\<open>byte_to_sector\<close>, \<^verbatim>\<open>block_read\<close>, \<^verbatim>\<open>memcpy\<close>) left out. It
  gives the count also for the calls in which an index is out of bounds, where the code
  goes on with whatever it has read.
\<close>

function read_count :: "bool \<Rightarrow> inode \<Rightarrow> off_t \<Rightarrow> off_t \<Rightarrow> off_t \<Rightarrow> bool \<Rightarrow> off_t" where
  "read_count bounce_ok inode sz offset bytes_read bounce =
     (if sz > 0 then
        (let sector_ofs = offset smod BLOCK_SECTOR_SIZE;
             inode_left = off_t_of (inode_length inode - offset);
             sector_left = BLOCK_SECTOR_SIZE - sector_ofs;
             min_left = (if inode_left < sector_left then inode_left else sector_left);
             chunk_size = (if sz < min_left then sz else min_left)
         in if chunk_size \<le> 0 then bytes_read
            else if sector_ofs = 0 \<and> chunk_size = BLOCK_SECTOR_SIZE then
              read_count bounce_ok inode (sz - chunk_size) (off_t_of (offset + chunk_size))
                (bytes_read + chunk_size) bounce
            else if \<not> bounce \<and> \<not> bounce_ok then bytes_read
            else
              read_count bounce_ok inode (sz - chunk_size) (off_t_of (offset + chunk_size))
                (bytes_read + chunk_size) True)
      else bytes_read)"
  by pat_completeness auto
termination
  by (relation "measure (\<lambda>(bounce_ok, inode, sz, offset, bytes_read, bounce). nat sz)")
     (auto split: if_splits)

text \<open>
  The loop of \<^verbatim>\<open>inode_write_at\<close>; \<open>buffer\<close> is the caller's buffer, of which the
  bytes from \<open>bytes_written\<close> on are still to be written. Its arithmetic is the one of
  the loop of \<^verbatim>\<open>inode_read_at\<close>.
\<close>

function write_loop ::
  "nat \<Rightarrow> bool \<Rightarrow> 'a fs_state_scheme \<Rightarrow> inode \<Rightarrow> byte list \<Rightarrow> off_t \<Rightarrow> off_t \<Rightarrow> off_t \<Rightarrow> bool
     \<Rightarrow> (error + off_t) \<times> 'a fs_state_scheme" where
  "write_loop nd bounce_ok st inode buffer sz offset bytes_written bounce =
     (if sz > 0 then
        (case byte_to_sector nd st inode offset of
           (Inl e, st1) \<Rightarrow> (Inl e, st1)
         | (Inr sector_idx, st1) \<Rightarrow>
             (let sector_ofs = offset smod BLOCK_SECTOR_SIZE;
                  inode_left = off_t_of (inode_length inode - offset);
                  sector_left = BLOCK_SECTOR_SIZE - sector_ofs;
                  min_left = (if inode_left < sector_left then inode_left else sector_left);
                  chunk_size = (if sz < min_left then sz else min_left)
              in if chunk_size \<le> 0 then (Inr bytes_written, st1)
                 else if sector_ofs = 0 \<and> chunk_size = BLOCK_SECTOR_SIZE then
                   (let st2 = block_write st1 sector_idx
                                (Data (take 512 (drop (nat bytes_written) buffer)))
                    in write_loop nd bounce_ok st2 inode buffer (sz - chunk_size) (off_t_of (offset + chunk_size))
                         (bytes_written + chunk_size) bounce)
                 else if \<not> bounce \<and> \<not> bounce_ok then (Inr bytes_written, st1)
                 else
                   (let (old, st2) =
                          (if sector_ofs > 0 \<or> chunk_size < sector_left
                           then (case block_read st1 sector_idx of (c, st') \<Rightarrow> (bytes_of c, st'))
                           else (replicate 512 0, st1))
                    in if sector_ofs < 0 then (Inl Out_of_bounds, st2)
                       else
                         (let new = take (nat sector_ofs) old
                                    @ take (nat chunk_size) (drop (nat bytes_written) buffer)
                                    @ drop (nat sector_ofs + nat chunk_size) old;
                              st3 = block_write st2 sector_idx (Data new)
                          in write_loop nd bounce_ok st3 inode buffer (sz - chunk_size) (off_t_of (offset + chunk_size))
                               (bytes_written + chunk_size) True))))
      else (Inr bytes_written, st))"
  by pat_completeness auto
termination
  by (relation "measure (\<lambda>(nd, bounce_ok, st, inode, buffer, sz, offset, bytes_written, bounce). nat sz)")
     (auto split: if_splits)

text \<open>
  \<^verbatim>\<open>inode_write_at (inode, buffer_, size, offset)\<close>: the count, the in-memory inode as the
  call leaves it, and the state. The sum \<^verbatim>\<open>offset + size\<close> is the 32-bit one.
\<close>

definition inode_write_at ::
  "nat \<Rightarrow> bool \<Rightarrow> 'a fs_state_scheme \<Rightarrow> inode \<Rightarrow> byte list \<Rightarrow> off_t \<Rightarrow> off_t
     \<Rightarrow> (error + off_t) \<times> inode \<times> 'a fs_state_scheme" where
  "inode_write_at nd bounce_ok st inode buffer sz offset =
     (if deny_write_cnt inode \<noteq> 0 then (Inr 0, inode, st)
      else if off_t_of (offset + sz) > inode_length inode then
        (case inode_alloc nd st (data inode) (off_t_of (offset + sz)) of
           (True, d1, st1) \<Rightarrow>
             (let inode1 = inode\<lparr>data := d1\<lparr>length_d := off_t_of (offset + sz)\<rparr>\<rparr>;
                  st2 = block_write st1 (sector inode1) (Record (data inode1))
              in case write_loop nd bounce_ok st2 inode1 buffer sz offset 0 False of
                   (r, st3) \<Rightarrow> (r, inode1, st3))
         | (False, d1, st1) \<Rightarrow> (Inr 0, inode\<lparr>data := d1\<rparr>, st1))
      else
        (case write_loop nd bounce_ok st inode buffer sz offset 0 False of
           (r, st3) \<Rightarrow> (r, inode, st3)))"

subsection \<open>inode_dealloc and inode_dealloc_iblock\<close>

text \<open>The first loop of \<^verbatim>\<open>inode_dealloc\<close>, over the direct pointers.\<close>

function dealloc_direct ::
  "'a fs_state_scheme \<Rightarrow> inode_disk \<Rightarrow> nat \<Rightarrow> nat \<Rightarrow> nat \<Rightarrow> nat \<times> 'a fs_state_scheme" where
  "dealloc_direct st d sector_size index limit =
     (if index < limit then
        dealloc_direct (free_map_release st (direct_blocks d ! index)) d (sector_size - 1) (index + 1) limit
      else (sector_size, st))"
  by pat_completeness auto
termination
  by (relation "measure (\<lambda>(st, d, sector_size, index, limit). limit - index)") auto

text \<open>The last loop of \<^verbatim>\<open>inode_dealloc_iblock\<close>, which releases the entries of a block.\<close>

function dealloc_entries ::
  "'a fs_state_scheme \<Rightarrow> block_sector_t list \<Rightarrow> nat \<Rightarrow> nat \<Rightarrow> 'a fs_state_scheme" where
  "dealloc_entries st blk index limit =
     (if index < limit then dealloc_entries (free_map_release st (blk ! index)) blk (index + 1) limit
      else st)"
  by pat_completeness auto
termination
  by (relation "measure (\<lambda>(st, blk, index, limit). limit - index)") auto

text \<open>
  \<^verbatim>\<open>inode_dealloc_iblock (entry, sector_size, height)\<close>. \<open>dealloc_while\<close> is the
  \<^verbatim>\<open>while (height > 1)\<close> loop, which hands the remaining count and \<^verbatim>\<open>unit\<close> to the code
  after it, and \<open>dealloc_for\<close> the \<^verbatim>\<open>for\<close> loop inside it.
\<close>

function inode_dealloc_iblock ::
    "'a fs_state_scheme \<Rightarrow> block_sector_t \<Rightarrow> nat \<Rightarrow> nat \<Rightarrow> 'a fs_state_scheme"
  and dealloc_while ::
    "'a fs_state_scheme \<Rightarrow> block_sector_t \<Rightarrow> nat \<Rightarrow> nat \<Rightarrow> nat \<Rightarrow> nat \<times> nat \<times> 'a fs_state_scheme"
  and dealloc_for ::
    "'a fs_state_scheme \<Rightarrow> block_sector_t list \<Rightarrow> nat \<Rightarrow> nat \<Rightarrow> nat \<Rightarrow> nat \<Rightarrow> nat
       \<Rightarrow> nat \<times> 'a fs_state_scheme" where
  "inode_dealloc_iblock st entry sector_size height =
     (if height = 1 then free_map_release st entry
      else
        (case dealloc_while st entry sector_size height 1 of
           (sector_size1, unit, st1) \<Rightarrow>
             (let (c, st2) = block_read st1 entry;
                  limit = sector_size1 div unit;
                  st3 = dealloc_entries st2 (ptrs_of c) 0 limit
              in free_map_release st3 entry)))"
| "dealloc_while st entry sector_size height unit =
     (if height > 1 then
        (let (c, st1) = block_read st entry;
             unit1 = (if height = 2 then NUM_INDIRECT_PTRS else unit);
             limit = sector_size div unit1
         in case dealloc_for st1 (ptrs_of c) sector_size height unit1 0 limit of
              (sector_size1, st2) \<Rightarrow>
                dealloc_while (free_map_release st2 entry) entry sector_size1 (height - 1) unit1)
      else (sector_size, unit, st))"
| "dealloc_for st blk sector_size height unit index limit =
     (if index < limit then
        (let sz = (if sector_size < unit then sector_size else unit);
             st1 = inode_dealloc_iblock st (blk ! index) sz (height - 1)
         in dealloc_for st1 blk (sector_size - sz) height unit (index + 1) limit)
      else (sector_size, st))"
  by pat_completeness auto
termination
  by (relation "inv_image (less_than <*lex*> less_than)
        (\<lambda>x. case x of
           Inl (st, entry, sector_size, height) \<Rightarrow>
             (if height < 2 then 3 * height + 1 else 3 * height + 2, 0)
         | Inr (Inl (st, entry, sector_size, height, unit)) \<Rightarrow>
             (if height < 2 then 3 * height else 3 * height + 1, 0)
         | Inr (Inr (st, blk, sector_size, height, unit, index, limit)) \<Rightarrow>
             (if height < 2 then 3 * height + 2 else 3 * height, limit - index))")
     auto

text \<open>\<^verbatim>\<open>inode_dealloc (disk_inode)\<close>\<close>

definition inode_dealloc ::
  "nat \<Rightarrow> 'a fs_state_scheme \<Rightarrow> inode_disk \<Rightarrow> bool \<times> 'a fs_state_scheme" where
  "inode_dealloc nd st disk_inode =
     (let sector_size = bytes_to_sectors (length_d disk_inode);
          file_length = length_d disk_inode
      in if file_length < 0 then (False, st)
         else
           (let limit = (if sector_size < nd then sector_size else nd)
            in case dealloc_direct st disk_inode sector_size 0 limit of
                 (sector_size1, st1) \<Rightarrow>
                   (let indirect_limit =
                          (if sector_size1 < NUM_INDIRECT_PTRS then sector_size1 else NUM_INDIRECT_PTRS);
                        st2 = (if indirect_limit > 0
                               then inode_dealloc_iblock st1 (indirect_block disk_inode) indirect_limit 1
                               else st1);
                        sector_size2 = sector_size1 - indirect_limit;
                        dbl_indirect_limit =
                          (if sector_size2 < NUM_DBL_INDIRECT_PTRS then sector_size2
                           else NUM_DBL_INDIRECT_PTRS);
                        st3 = (if dbl_indirect_limit > 0
                               then inode_dealloc_iblock st2 (doubly_indirect_block disk_inode)
                                      dbl_indirect_limit 2
                               else st2)
                    in (True, st3))))"

subsection \<open>The open inodes\<close>

text \<open>
  A \<^verbatim>\<open>struct inode *\<close> is an address; \<open>heap\<close> holds the live \<^verbatim>\<open>struct inode\<close>
  objects, and \<open>open_inodes\<close> is the list of that name, front first. Using a pointer
  after \<^verbatim>\<open>free\<close> is undefined in C; the model leaves the state as it is there.
\<close>

record kernel = fs_state +
  heap :: "nat \<rightharpoonup> inode"
  open_inodes :: "nat list"

text \<open>\<^verbatim>\<open>inode_init\<close> on a given device and free map.\<close>

definition inode_init :: "fs_state \<Rightarrow> kernel" where
  "inode_init fs = fs_state.extend fs \<lparr>heap = Map.empty, open_inodes = []\<rparr>"

text \<open>The search loop of \<^verbatim>\<open>inode_open\<close> through \<^verbatim>\<open>open_inodes\<close>.\<close>

fun find_open :: "(nat \<rightharpoonup> inode) \<Rightarrow> nat list \<Rightarrow> block_sector_t \<Rightarrow> nat option" where
  "find_open hp [] s = None"
| "find_open hp (e # es) s =
     (case hp e of
        Some i \<Rightarrow> (if sector i = s then Some e else find_open hp es s)
      | None \<Rightarrow> find_open hp es s)"

definition inode_reopen :: "kernel \<Rightarrow> nat option \<Rightarrow> nat option \<times> kernel" where
  "inode_reopen st h =
     (case h of
        None \<Rightarrow> (None, st)
      | Some p \<Rightarrow>
          (case heap st p of
             None \<Rightarrow> (Some p, st)
           | Some i \<Rightarrow> (Some p, st\<lparr>heap := (heap st)(p \<mapsto> i\<lparr>open_cnt := open_cnt i + 1\<rparr>)\<rparr>)))"

text \<open>\<^verbatim>\<open>inode_open (sector)\<close>; \<open>m\<close> is what \<^verbatim>\<open>malloc\<close> returns if it is called.\<close>

definition inode_open :: "nat \<Rightarrow> kernel \<Rightarrow> block_sector_t \<Rightarrow> nat option \<Rightarrow> nat option \<times> kernel" where
  "inode_open nd st s m =
     (case find_open (heap st) (open_inodes st) s of
        Some p \<Rightarrow> inode_reopen st (Some p)
      | None \<Rightarrow>
          (case m of
             None \<Rightarrow> (None, st)
           | Some p \<Rightarrow>
               (let st1 = st\<lparr>open_inodes := p # open_inodes st\<rparr>;
                    (c, st2) = block_read st1 s;
                    i = \<lparr>sector = s, open_cnt = 1, removed = False, deny_write_cnt = 0,
                         data = record_of nd c\<rparr>
                in (Some p, st2\<lparr>heap := (heap st2)(p \<mapsto> i)\<rparr>))))"

definition inode_get_inumber :: "inode \<Rightarrow> block_sector_t" where
  "inode_get_inumber inode = sector inode"

text \<open>\<^verbatim>\<open>inode_close (inode)\<close>\<close>

definition inode_close :: "nat \<Rightarrow> kernel \<Rightarrow> nat option \<Rightarrow> kernel" where
  "inode_close nd st h =
     (case h of
        None \<Rightarrow> st
      | Some p \<Rightarrow>
          (case heap st p of
             None \<Rightarrow> st
           | Some i \<Rightarrow>
               (let i1 = i\<lparr>open_cnt := open_cnt i - 1\<rparr>
                in if open_cnt i1 = 0 then
                     (let st1 = st\<lparr>open_inodes := remove1 p (open_inodes st)\<rparr>;
                          st2 = (if removed i1
                                 then snd (inode_dealloc nd (free_map_release st1 (sector i1)) (data i1))
                                 else st1)
                      in st2\<lparr>heap := (heap st2)(p := None)\<rparr>)
                   else st\<lparr>heap := (heap st)(p \<mapsto> i1)\<rparr>)))"

text \<open>\<^verbatim>\<open>inode_remove (inode)\<close>, with its assertion that the pointer is not null.\<close>

definition inode_remove :: "kernel \<Rightarrow> nat option \<Rightarrow> error + kernel" where
  "inode_remove st h =
     (case h of
        None \<Rightarrow> Inl Assertion_failed
      | Some p \<Rightarrow>
          (case heap st p of
             None \<Rightarrow> Inr st
           | Some i \<Rightarrow> Inr (st\<lparr>heap := (heap st)(p \<mapsto> i\<lparr>removed := True\<rparr>)\<rparr>)))"

definition inode_deny_write :: "kernel \<Rightarrow> nat \<Rightarrow> error + kernel" where
  "inode_deny_write st p =
     (case heap st p of
        None \<Rightarrow> Inr st
      | Some i \<Rightarrow>
          (let i1 = i\<lparr>deny_write_cnt := deny_write_cnt i + 1\<rparr>
           in if deny_write_cnt i1 \<le> open_cnt i1
              then Inr (st\<lparr>heap := (heap st)(p \<mapsto> i1)\<rparr>)
              else Inl Assertion_failed))"

definition inode_allow_write :: "kernel \<Rightarrow> nat \<Rightarrow> error + kernel" where
  "inode_allow_write st p =
     (case heap st p of
        None \<Rightarrow> Inr st
      | Some i \<Rightarrow>
          (if \<not> (deny_write_cnt i > 0) then Inl Assertion_failed
           else if \<not> (deny_write_cnt i \<le> open_cnt i) then Inl Assertion_failed
           else Inr (st\<lparr>heap := (heap st)(p \<mapsto> i\<lparr>deny_write_cnt := deny_write_cnt i - 1\<rparr>)\<rparr>)))"

subsection \<open>Sequences of calls on the open inodes\<close>

text \<open>
  A call of the interface on a handle, and what a C caller may do: \<open>op_ok\<close> says that
  the handle passed is live (not used after the last close freed it), that \<^verbatim>\<open>malloc\<close>
  returns memory that is not in use, and that the assertions of \<^verbatim>\<open>inode_deny_write\<close> and
  \<^verbatim>\<open>inode_allow_write\<close> hold. \<open>apply_op\<close> returns the handle the call returns.
\<close>

datatype op =
    Open block_sector_t "nat option"
  | Reopen nat
  | Close nat
  | Remove nat
  | Deny_write nat
  | Allow_write nat

fun apply_op :: "nat \<Rightarrow> kernel \<Rightarrow> op \<Rightarrow> nat option \<times> kernel" where
  "apply_op nd st (Open s m) = inode_open nd st s m"
| "apply_op nd st (Reopen p) = inode_reopen st (Some p)"
| "apply_op nd st (Close p) = (None, inode_close nd st (Some p))"
| "apply_op nd st (Remove p) = (None, case inode_remove st (Some p) of Inr st' \<Rightarrow> st' | Inl e \<Rightarrow> st)"
| "apply_op nd st (Deny_write p) = (None, case inode_deny_write st p of Inr st' \<Rightarrow> st' | Inl e \<Rightarrow> st)"
| "apply_op nd st (Allow_write p) = (None, case inode_allow_write st p of Inr st' \<Rightarrow> st' | Inl e \<Rightarrow> st)"

fun op_ok :: "kernel \<Rightarrow> op \<Rightarrow> bool" where
  "op_ok st (Open s m) = (case m of None \<Rightarrow> True | Some p \<Rightarrow> heap st p = None)"
| "op_ok st (Reopen p) = (heap st p \<noteq> None)"
| "op_ok st (Close p) = (heap st p \<noteq> None)"
| "op_ok st (Remove p) = (heap st p \<noteq> None)"
| "op_ok st (Deny_write p) = (heap st p \<noteq> None \<and> (case inode_deny_write st p of Inr st' \<Rightarrow> True | Inl e \<Rightarrow> False))"
| "op_ok st (Allow_write p) = (heap st p \<noteq> None \<and> (case inode_allow_write st p of Inr st' \<Rightarrow> True | Inl e \<Rightarrow> False))"

fun run :: "nat \<Rightarrow> kernel \<Rightarrow> op list \<Rightarrow> kernel" where
  "run nd st [] = st"
| "run nd st (x # xs) = run nd (snd (apply_op nd st x)) xs"

fun valid_ops :: "nat \<Rightarrow> kernel \<Rightarrow> op list \<Rightarrow> bool" where
  "valid_ops nd st [] = True"
| "valid_ops nd st (x # xs) = (op_ok st x \<and> valid_ops nd (snd (apply_op nd st x)) xs)"

fun net_opens :: "nat \<Rightarrow> kernel \<Rightarrow> op list \<Rightarrow> nat \<Rightarrow> int" where
  "net_opens nd st [] p = 0"
| "net_opens nd st (x # xs) p =
     (if fst (apply_op nd st x) = Some p then 1 else 0) - (if x = Close p then 1 else 0)
     + net_opens nd (snd (apply_op nd st x)) xs p"

text \<open>
  The invariant of the open inodes for the counts \<open>c\<close> of opens minus closes: the list
  has no duplicates and holds exactly the live handles, a live handle's \<open>open_cnt\<close> is
  its count and is positive, a freed handle's count is 0, and no two live handles are for
  the same sector.
\<close>

definition handles_inv :: "kernel \<Rightarrow> (nat \<Rightarrow> int) \<Rightarrow> bool" where
  "handles_inv st c \<longleftrightarrow>
     distinct (open_inodes st) \<and> set (open_inodes st) = dom (heap st)
     \<and> (\<forall>p i. heap st p = Some i \<longrightarrow> open_cnt i = c p \<and> 0 < c p)
     \<and> (\<forall>p. heap st p = None \<longrightarrow> c p = 0)
     \<and> (\<forall>p q i j. heap st p = Some i \<and> heap st q = Some j \<and> sector i = sector j \<longrightarrow> p = q)"

subsection \<open>Auxiliary notions for the data path\<close>

text \<open>The \<^verbatim>\<open>chunk_size\<close> that a round of either loop computes.\<close>

definition chunk_of :: "inode \<Rightarrow> off_t \<Rightarrow> off_t \<Rightarrow> off_t" where
  "chunk_of inode sz offset =
     (let sector_ofs = offset smod BLOCK_SECTOR_SIZE;
          inode_left = off_t_of (inode_length inode - offset);
          sector_left = BLOCK_SECTOR_SIZE - sector_ofs;
          min_left = (if inode_left < sector_left then inode_left else sector_left)
      in if sz < min_left then sz else min_left)"


subsection \<open>Events of the log\<close>

text \<open>
  \<open>grows_by P st st'\<close>: the log of \<open>st'\<close> is the log of \<open>st\<close> with new events in
  front of it, all of which satisfy \<open>P\<close>. The events of an allocation are requests to
  the free map, reads, writes of \<open>zeros\<close> and writes of pointer blocks; the events of the
  data loop of a write are reads and writes of byte buffers.
\<close>

fun alloc_event :: "event \<Rightarrow> bool" where
  "alloc_event (Ev_write s (Data bs)) = (Data bs = zeros)"
| "alloc_event (Ev_write s (Index ps)) = True"
| "alloc_event (Ev_write s (Record d)) = False"
| "alloc_event (Ev_release s) = False"
| "alloc_event (Ev_read s) = True"
| "alloc_event (Ev_alloc r) = True"

definition grows_by :: "(event \<Rightarrow> bool) \<Rightarrow> 'a fs_state_scheme \<Rightarrow> 'a fs_state_scheme \<Rightarrow> bool" where
  "grows_by P st st' = (\<exists>ev. trace st' = ev @ trace st \<and> list_all P ev)"

fun record_write :: "event \<Rightarrow> bool" where
  "record_write (Ev_write s (Record d)) = True"
| "record_write (Ev_write s (Data bs)) = False"
| "record_write (Ev_write s (Index ps)) = False"
| "record_write (Ev_release s) = False"
| "record_write (Ev_read s) = False"
| "record_write (Ev_alloc r) = False"

fun is_write :: "event \<Rightarrow> bool" where
  "is_write (Ev_write s c) = True"
| "is_write (Ev_release s) = False"
| "is_write (Ev_read s) = False"
| "is_write (Ev_alloc r) = False"

fun data_event :: "event \<Rightarrow> bool" where
  "data_event (Ev_write s (Data bs)) = True"
| "data_event (Ev_write s (Index ps)) = False"
| "data_event (Ev_write s (Record d)) = False"
| "data_event (Ev_release s) = False"
| "data_event (Ev_read s) = True"
| "data_event (Ev_alloc r) = False"

subsection \<open>Releasing a list of sectors\<close>

text \<open>\<^verbatim>\<open>free_map_release (s, 1)\<close> for each sector of a list, in order.\<close>

definition release_all :: "'a fs_state_scheme \<Rightarrow> block_sector_t list \<Rightarrow> 'a fs_state_scheme" where
  "release_all st xs = foldl free_map_release st xs"

subsection \<open>Example states\<close>

text \<open>
  A file of 379 sectors with 123 direct pointers: the direct sectors are 10 to 132, the
  indirect block is sector 133 and points to the sectors 134 to 261, the doubly-indirect
  block is sector 262, its first entry is the indirect block 263, which points to the
  data sectors 264 to 391.
\<close>

definition ex_record :: inode_disk where
  "ex_record = \<lparr>length_d = 379 * 512, magic = INODE_MAGIC, dir = False,
                direct_blocks = map word_of_nat [10 ..< 133],
                indirect_block = 133, doubly_indirect_block = 262\<rparr>"

definition ex_inode :: inode where
  "ex_inode = \<lparr>sector = 9, open_cnt = 1, removed = False, deny_write_cnt = 0, data = ex_record\<rparr>"

definition ex_state :: fs_state where
  "ex_state = \<lparr>disk = (\<lambda>s. zeros)
                 (9 := Record ex_record,
                  133 := Index (map word_of_nat [134 ..< 262]),
                  262 := Index (263 # replicate 127 0),
                  263 := Index (map word_of_nat [264 ..< 392])),
               free_map = map word_of_nat [392 ..< 400], trace = []\<rparr>"

text \<open>The file of the read example: 600 bytes in the direct sectors 10 and 11.\<close>

definition rd_inode :: inode where
  "rd_inode = \<lparr>sector = 9, open_cnt = 1, removed = False, deny_write_cnt = 0,
     data = \<lparr>length_d = 600, magic = INODE_MAGIC, dir = False,
             direct_blocks = 10 # 11 # replicate 121 0,
             indirect_block = 0, doubly_indirect_block = 0\<rparr>\<rparr>"

definition rd_state :: fs_state where
  "rd_state = \<lparr>disk = (\<lambda>s. zeros)(10 := Data (replicate 512 1), 11 := Data (replicate 512 2)),
     free_map = [], trace = []\<rparr>"

text \<open>The write example: an empty file whose inode is sector 9, and a free map.\<close>

definition wr_inode :: inode where
  "wr_inode = \<lparr>sector = 9, open_cnt = 1, removed = False, deny_write_cnt = 0,
     data = \<lparr>length_d = 0, magic = INODE_MAGIC, dir = False,
             direct_blocks = replicate 123 0,
             indirect_block = 0, doubly_indirect_block = 0\<rparr>\<rparr>"

definition wr_state :: "block_sector_t list \<Rightarrow> fs_state" where
  "wr_state free = \<lparr>disk = (\<lambda>s. zeros)(9 := Record (data wr_inode)), free_map = free, trace = []\<rparr>"

text \<open>An example run: the inode of sector 9 is opened twice, write-denied and closed once.\<close>

definition op_kernel :: kernel where
  "op_kernel = inode_init (wr_state [])"

definition op_list :: "op list" where
  "op_list = [Open 9 (Some 1), Open 9 (Some 2), Deny_write 1, Close 1]"

text \<open>
  The close example: the one handle of the empty file of sector 9, whose in-memory record
  has a direct pointer that the record on the device does not have.
\<close>

definition cl_inode :: inode where
  "cl_inode = \<lparr>sector = 9, open_cnt = 1, removed = False, deny_write_cnt = 0,
     data = \<lparr>length_d = 0, magic = INODE_MAGIC, dir = False,
             direct_blocks = 20 # replicate 122 0,
             indirect_block = 0, doubly_indirect_block = 0\<rparr>\<rparr>"

definition cl_kernel :: kernel where
  "cl_kernel = \<lparr>disk = (\<lambda>s. zeros)(9 := Record (data wr_inode), 20 := zeros), free_map = [],
      trace = [], heap = [1 \<mapsto> cl_inode], open_inodes = [1]\<rparr>"

section \<open>Properties\<close>

text \<open>The recursion equations of the loops are unfolded by hand.\<close>

declare read_count.simps [simp del] inode_alloc_direct.simps [simp del] inode_alloc_iblock.simps [simp del]
  alloc_while.simps [simp del] alloc_for.simps [simp del]
  dealloc_direct.simps [simp del] dealloc_entries.simps [simp del]
  inode_dealloc_iblock.simps [simp del] dealloc_while.simps [simp del] dealloc_for.simps [simp del]
  read_loop.simps [simp del] write_loop.simps [simp del]

subsection \<open>Arithmetic of C\<close>

lemma sdiv_nonneg: "0 \<le> a \<Longrightarrow> 0 < b \<Longrightarrow> (a::int) sdiv b = a div b"
  by (simp add: signed_divide_int_def sgn_if)

lemma smod_nonneg: "0 \<le> a \<Longrightarrow> 0 < b \<Longrightarrow> (a::int) smod b = a mod b"
  by (simp add: signed_modulo_int_def sgn_if)

lemma off_t_of_id: "off_t_range x \<Longrightarrow> off_t_of x = x"
  by (simp add: off_t_of_def off_t_range_def)

lemma off_t_of_range: "off_t_range (off_t_of x)"
  unfolding off_t_of_def off_t_range_def
  using pos_mod_bound[of 4294967296 "x + 2147483648"] pos_mod_sign[of 4294967296 "x + 2147483648"]
  by linarith


subsection \<open>Address translation\<close>


text \<open>
  In the doubly-indirect range the last index is never below 128, whatever the number of
  direct pointers: \<^verbatim>\<open>pos - (indirect_idx) % NUM_INDIRECT_PTRS\<close> subtracts at most
  \<open>nd\<close> from a sector index that is at least \<open>nd + 128\<close>.
\<close>

lemma byte_to_sector_double_oob:
  assumes "pos < length_d (data inode)"
    and "(int nd + 128) * 512 \<le> pos" and "pos < (int nd + 128 + 16384) * 512"
  shows "fst (byte_to_sector nd st inode pos) = Inl Out_of_bounds"
proof -
  have p0: "0 \<le> pos" using assms by simp
  have lo: "int nd + 128 \<le> pos div 512" using assms(2) by simp
  have hi: "pos div 512 < int nd + 128 + 16384" using assms(3) by simp
  have m: "(int nd + 128) smod 128 = (int nd) mod 128"
    by (simp add: smod_nonneg)
  have "int nd mod 128 \<le> int nd" by (simp add: zmod_le_nonneg_dividend)
  then have idx: "\<not> pos div 512 - (int nd) mod 128 < 128" using lo by linarith
  show ?thesis
    using assms(1) lo hi idx
    by (simp add: byte_to_sector_def Let_def sdiv_nonneg[OF p0] m block_read_def split: prod.splits)
qed

text \<open>
  C4. The claim: address translation fails with NOT_FOUND at and beyond the length, and in
  the doubly-indirect range returns the entry at inner position
  \<open>(sector_index - N_DIRECT - 128) mod 128\<close> of the block designated by the outer entry
  \<open>(sector_index - N_DIRECT - 128) div 128\<close>. In the example file, sector index 251 is
  the first of the doubly-indirect range, and the claim gives sector 264 for byte
  \<open>251 * 512\<close>. The code indexes the 128-entry block at \<open>251 - 123 = 128\<close>.
\<close>

theorem byte_to_sector_double_indirect_out_of_bounds:
  "fst (byte_to_sector 123 ex_state ex_inode (251 * 512)) = Inl Out_of_bounds
   \<and> ptrs_of (disk ex_state (ptrs_of (disk ex_state (doubly_indirect_block (data ex_inode))) ! 0)) ! 0 = 264"
proof -
  have "fst (byte_to_sector 123 ex_state ex_inode (251 * 512)) = Inl Out_of_bounds"
    by (rule byte_to_sector_double_oob) (simp_all add: ex_inode_def ex_record_def)
  moreover have "ptrs_of (disk ex_state (ptrs_of (disk ex_state (doubly_indirect_block (data ex_inode))) ! 0)) ! 0 = 264"
    by (simp add: ex_inode_def ex_record_def ex_state_def ptrs_of_def)
  ultimately show ?thesis by simp
qed

subsection \<open>Reading\<close>

lemma chunk_of_le: "chunk_of inode sz offset \<le> sz" "chunk_of inode sz offset \<le> off_t_of (inode_length inode - offset)"
  by (auto simp: chunk_of_def Let_def)




lemma read_loop_unfold:
  "read_loop nd bounce_ok st inode sz offset bytes_read buffer bounce =
     (if sz > 0 then
        (case byte_to_sector nd st inode offset of
           (Inl e, st1) \<Rightarrow> (Inl e, st1)
         | (Inr sector_idx, st1) \<Rightarrow>
             (if chunk_of inode sz offset \<le> 0 then (Inr (bytes_read, buffer), st1)
              else if offset smod BLOCK_SECTOR_SIZE = 0 \<and> chunk_of inode sz offset = BLOCK_SECTOR_SIZE then
                (case block_read st1 sector_idx of (c, st2) \<Rightarrow>
                   read_loop nd bounce_ok st2 inode (sz - chunk_of inode sz offset)
                         (off_t_of (offset + chunk_of inode sz offset))
                         (bytes_read + chunk_of inode sz offset) (buffer @ bytes_of c) bounce)
              else if \<not> bounce \<and> \<not> bounce_ok then (Inr (bytes_read, buffer), st1)
              else
                (case block_read st1 sector_idx of (c, st2) \<Rightarrow>
                   if offset smod BLOCK_SECTOR_SIZE < 0 then (Inl Out_of_bounds, st2)
                   else read_loop nd bounce_ok st2 inode (sz - chunk_of inode sz offset)
                              (off_t_of (offset + chunk_of inode sz offset))
                              (bytes_read + chunk_of inode sz offset)
                              (buffer @ take (nat (chunk_of inode sz offset)) (drop (nat (offset smod BLOCK_SECTOR_SIZE)) (bytes_of c))) True)))
      else (Inr (bytes_read, buffer), st))"
  by (subst read_loop.simps) (auto simp: Let_def chunk_of_def split: prod.splits sum.splits)




















lemma read_loop_double_oob:
  assumes "0 < sz" "offset < length_d (data inode)"
    and "(int nd + 128) * 512 \<le> offset" "offset < (int nd + 128 + 16384) * 512"
  shows "fst (read_loop nd bounce_ok st inode sz offset bytes_read buffer bounce) = Inl Out_of_bounds"
  using byte_to_sector_double_oob[OF assms(2-4), of st] assms(1)
  by (subst read_loop.simps) (auto split: prod.splits sum.splits)



lemma rd_count: "read_count True rd_inode 700 100 0 False = 500"
  by (simp add: read_count.simps Let_def rd_inode_def inode_length_def off_t_of_def smod_nonneg)




text \<open>
  The lengths that the code itself produces are non-negative values of \<^verbatim>\<open>off_t\<close>:
  \<^verbatim>\<open>inode_create\<close> asserts it of the length it writes, the allocation does not touch
  the field, and a write leaves the length as it is or sets it to a 32-bit sum that
  exceeds it.
\<close>

lemma inode_alloc_direct_length:
  "length_d (fst (snd (snd (inode_alloc_direct st d sector_size index limit)))) = length_d d"
proof (induction st d sector_size index limit rule: inode_alloc_direct.induct)
  case (1 st d sector_size index limit)
  show ?case
    using "1.IH"
    by (subst inode_alloc_direct.simps)
       (auto simp: Let_def split: prod.splits option.splits)
qed

lemma inode_alloc_length: "length_d (fst (snd (inode_alloc nd st d len))) = length_d d"
proof -
  let ?ss = "bytes_to_sectors len"
  let ?limit = "(if ?ss < nd then ?ss else nd)"
  obtain r ss1 d1 st1 where dl: "inode_alloc_direct st d ?ss 0 ?limit = (r, ss1, d1, st1)"
    by (metis prod_cases4)
  have "length_d d1 = length_d d"
    using inode_alloc_direct_length[of st d ?ss 0 ?limit] dl by simp
  then show ?thesis
    using dl by (simp add: inode_alloc_def Let_def split: prod.splits option.splits bool.splits)
qed

lemma inode_write_at_length:
  assumes "0 \<le> inode_length inode" "off_t_range (inode_length inode)"
  shows "0 \<le> inode_length (fst (snd (inode_write_at nd bounce_ok st inode buffer sz offset)))
         \<and> off_t_range (inode_length (fst (snd (inode_write_at nd bounce_ok st inode buffer sz offset))))"
proof -
  have a: "length_d (fst (snd (inode_alloc nd st (data inode) (off_t_of (offset + sz))))) = length_d (data inode)"
    by (rule inode_alloc_length)
  show ?thesis
    using assms a off_t_of_range[of "offset + sz"]
    by (auto simp: inode_write_at_def inode_length_def Let_def split: prod.splits bool.splits)
qed

lemma inode_create_length:
  assumes "inode_create nd calloc_ok st sec len is_dir = (Inr True, st')"
  shows "0 \<le> len \<and> (\<exists>d. disk st' sec = Record d \<and> length_d d = len)"
proof -
  let ?d = "\<lparr>length_d = len, magic = INODE_MAGIC, dir = is_dir, direct_blocks = replicate nd 0,
             indirect_block = 0, doubly_indirect_block = 0\<rparr>"
  have a: "length_d (fst (snd (inode_alloc nd st ?d len))) = len"
    using inode_alloc_length[of nd st ?d len] by simp
  show ?thesis
    using assms a
    by (auto simp: inode_create_def Let_def block_write_def split: if_splits prod.splits bool.splits)
qed



subsection \<open>The log of an allocation and of a write\<close>

lemma grows_by_refl [simp]: "grows_by P st st"
  by (simp add: grows_by_def)

lemma grows_by_trans: "grows_by P st st1 \<Longrightarrow> grows_by P st1 st2 \<Longrightarrow> grows_by P st st2"
  by (auto simp: grows_by_def)

lemma grows_by_block_read: "P (Ev_read s) \<Longrightarrow> grows_by P st (snd (block_read st s))"
  by (simp add: grows_by_def block_read_def)

lemma grows_by_block_write: "P (Ev_write s c) \<Longrightarrow> grows_by P st (block_write st s c)"
  by (simp add: grows_by_def block_write_def)

lemma grows_by_free_map_allocate:
  "(\<And>r. P (Ev_alloc r)) \<Longrightarrow> grows_by P st (snd (free_map_allocate st))"
  by (simp add: grows_by_def free_map_allocate_def split: list.splits)

lemma alloc_event_zeros [simp]: "alloc_event (Ev_write s zeros)"
  by (simp add: zeros_def)

lemmas alloc_grow =
  grows_by_block_read[of alloc_event, simplified]
  grows_by_block_write[of alloc_event _ zeros, simplified]
  grows_by_block_write[of alloc_event _ "Index ps" for ps, simplified]
  grows_by_free_map_allocate[of alloc_event, simplified]

lemma inode_alloc_direct_grows:
  "grows_by alloc_event st (snd (snd (snd (inode_alloc_direct st d sector_size index limit))))"
proof (induction st d sector_size index limit rule: inode_alloc_direct.induct)
  case (1 st d sector_size index limit)
  show ?case
  proof (cases "index < limit")
    case False
    then show ?thesis by (simp add: inode_alloc_direct.simps)
  next
    case lt: True
    show ?thesis
    proof (cases "direct_blocks d ! index = 0")
      case False
      with lt "1.IH"(2) show ?thesis by (simp add: inode_alloc_direct.simps)
    next
      case z: True
      obtain r st1 where a: "free_map_allocate st = (r, st1)" by (cases "free_map_allocate st")
      have g1: "grows_by alloc_event st st1" using alloc_grow(4)[of st] a by simp
      show ?thesis
      proof (cases r)
        case None
        with lt z a g1 show ?thesis by (simp add: inode_alloc_direct.simps)
      next
        case (Some s)
        have g2: "grows_by alloc_event st (block_write st1 s zeros)"
          using g1 alloc_grow(2) by (rule grows_by_trans)
        show ?thesis
        proof (cases "sector_size - 1 \<le> 0")
          case True
          with lt z a Some g2 show ?thesis by (simp add: inode_alloc_direct.simps Let_def)
        next
          case False
          from "1.IH"(1)[OF lt z a[symmetric] Some refl refl refl False]
          have "grows_by alloc_event (block_write st1 s zeros)
                 (snd (snd (snd (inode_alloc_direct (block_write st1 s zeros)
                     (d\<lparr>direct_blocks := (direct_blocks d)[index := s]\<rparr>) (sector_size - 1) (index + 1) limit))))" .
          with g2 have "grows_by alloc_event st
                 (snd (snd (snd (inode_alloc_direct (block_write st1 s zeros)
                     (d\<lparr>direct_blocks := (direct_blocks d)[index := s]\<rparr>) (sector_size - 1) (index + 1) limit))))"
            by (rule grows_by_trans)
          with lt z a Some False show ?thesis by (simp add: inode_alloc_direct.simps Let_def)
        qed
      qed
    qed
  qed
qed


lemma grows_read': "block_read st s = (c, st') \<Longrightarrow> grows_by alloc_event st st'"
  using alloc_grow(1)[of st s] by simp

lemma grows_alloc': "free_map_allocate st = (r, st') \<Longrightarrow> grows_by alloc_event st st'"
  using alloc_grow(4)[of st] by simp

lemma grows_write_zeros: "grows_by alloc_event st st1 \<Longrightarrow> grows_by alloc_event st (block_write st1 s zeros)"
  by (erule grows_by_trans) (rule alloc_grow)

lemma grows_write_index: "grows_by alloc_event st st1 \<Longrightarrow> grows_by alloc_event st (block_write st1 s (Index ps))"
  by (erule grows_by_trans) (rule alloc_grow)

lemma inode_alloc_iblock_grows:
  "grows_by alloc_event st (snd (snd (inode_alloc_iblock st sec sector_size height)))"
  "grows_by alloc_event st (snd (snd (alloc_while st sec sector_size height unit)))"
  "grows_by alloc_event st (snd (snd (alloc_for st sec blk sector_size height unit index limit)))"
proof (induction st sec sector_size height and st sec sector_size height unit
         and st sec blk sector_size height unit index limit
       rule: inode_alloc_iblock_alloc_while_alloc_for.induct)
  case (1 st sec sector_size height)
  then show ?case by (simp add: inode_alloc_iblock.simps)
next
  case (2 st sec sector_size height unit)
  show ?case
  proof (cases "height > 0")
    case False
    then show ?thesis by (simp add: alloc_while.simps)
  next
    case h: True
    obtain sec1 st1 where p: "(if sec = 0 then
                  (case free_map_allocate st of
                     (r, sta) \<Rightarrow>
                       (let s = (case r of Some s \<Rightarrow> s | None \<Rightarrow> sec)
                        in (s, block_write sta s zeros)))
                else (sec, st)) = (sec1, st1)" by fastforce
    have g1: "grows_by alloc_event st st1"
      using p by (auto simp: Let_def split: if_splits prod.splits intro: grows_by_trans alloc_grow dest!: grows_alloc')
    obtain c st2 where r: "block_read st1 sec1 = (c, st2)" by fastforce
    have g2: "grows_by alloc_event st st2" using g1 grows_read'[OF r] by (rule grows_by_trans)
    define unit1 where "unit1 = (if height = 2 then NUM_INDIRECT_PTRS else unit)"
    obtain b ss1 st3 where f: "alloc_for st2 sec1 (ptrs_of c) sector_size height unit1 0 (sector_size div unit1) = (b, ss1, st3)"
      by (metis prod_cases3)
    have g3: "grows_by alloc_event st st3"
      using "2.IH"(1)[OF h p[symmetric] refl r[symmetric] refl unit1_def refl] f g2
      by (auto intro: grows_by_trans)
    show ?thesis
    proof (cases b)
      case False
      with h p r f g3 show ?thesis by (simp add: alloc_while.simps Let_def unit1_def)
    next
      case True
      have "grows_by alloc_event st3 (snd (snd (alloc_while st3 sec1 ss1 (height - 1) unit1)))"
        using "2.IH"(2)[OF h p[symmetric] refl r[symmetric] refl unit1_def refl f[symmetric] _ refl] True by simp
      with g3 have "grows_by alloc_event st (snd (snd (alloc_while st3 sec1 ss1 (height - 1) unit1)))"
        by (rule grows_by_trans)
      with h p r f True show ?thesis by (simp add: alloc_while.simps Let_def unit1_def)
    qed
  qed
next
  case (3 st sec blk sector_size height unit index limit)
  show ?case
  proof (cases "index < limit")
    case False
    then show ?thesis by (simp add: alloc_for.simps)
  next
    case lt: True
    define sz where "sz = (if sector_size < unit then sector_size else unit)"
    show ?thesis
    proof (cases "height = 1")
      case h1: True
      show ?thesis
      proof (cases "blk ! index = 0")
        case z: True
        obtain r st1 where a: "free_map_allocate st = (r, st1)" by fastforce
        have g1: "grows_by alloc_event st st1" using grows_alloc'[OF a] .
        show ?thesis
        proof (cases r)
          case None
          with lt h1 z a g1 show ?thesis by (simp add: alloc_for.simps)
        next
          case (Some s)
          define st3 where "st3 = block_write (block_write st1 s zeros) sec (Index (blk[index := s]))"
          have g3: "grows_by alloc_event st st3"
            unfolding st3_def using g1 by (intro grows_write_index grows_write_zeros)
          have "grows_by alloc_event st3 (snd (snd (alloc_for st3 sec (blk[index := s]) (sector_size - sz) height unit (index + 1) limit)))"
            using "3.IH"(1)[OF lt sz_def h1 z a[symmetric] Some refl refl] by (simp add: st3_def)
          with g3 have "grows_by alloc_event st (snd (snd (alloc_for st3 sec (blk[index := s]) (sector_size - sz) height unit (index + 1) limit)))"
            by (rule grows_by_trans)
          with lt h1 z a Some show ?thesis by (simp add: alloc_for.simps Let_def sz_def st3_def)
        qed
      next
        case nz: False
        define st1 where "st1 = block_write st sec (Index blk)"
        have g1: "grows_by alloc_event st st1" unfolding st1_def by (rule alloc_grow)
        have "grows_by alloc_event st1 (snd (snd (alloc_for st1 sec blk (sector_size - sz) height unit (index + 1) limit)))"
          using "3.IH"(2)[OF lt sz_def h1 nz] by (simp add: st1_def)
        with g1 have "grows_by alloc_event st (snd (snd (alloc_for st1 sec blk (sector_size - sz) height unit (index + 1) limit)))"
          by (rule grows_by_trans)
        with lt h1 nz show ?thesis by (simp add: alloc_for.simps Let_def sz_def st1_def)
      qed
    next
      case hn: False
      obtain b e st1 where c: "inode_alloc_iblock st (blk ! index) sz (height - 1) = (b, e, st1)"
        by (metis prod_cases3)
      have g1: "grows_by alloc_event st st1"
        using "3.IH"(3)[OF lt sz_def hn] c by simp
      show ?thesis
      proof (cases b)
        case False
        with lt hn c g1 show ?thesis by (simp add: alloc_for.simps Let_def sz_def)
      next
        case True
        define st2 where "st2 = block_write st1 sec (Index (blk[index := e]))"
        have g2: "grows_by alloc_event st st2"
          unfolding st2_def using g1 by (intro grows_write_index)
        have "grows_by alloc_event st2 (snd (snd (alloc_for st2 sec (blk[index := e]) (sector_size - sz) height unit (index + 1) limit)))"
          using "3.IH"(4)[OF lt sz_def hn c[symmetric] _ refl refl refl] True by (simp add: st2_def)
        with g2 have "grows_by alloc_event st (snd (snd (alloc_for st2 sec (blk[index := e]) (sector_size - sz) height unit (index + 1) limit)))"
          by (rule grows_by_trans)
        with lt hn c True show ?thesis by (simp add: alloc_for.simps Let_def sz_def st2_def)
      qed
    qed
  qed
qed


lemma inode_alloc_direct_grows':
  "inode_alloc_direct st d ss i l = (r, ss1, d1, st1) \<Longrightarrow> grows_by alloc_event st st1"
  using inode_alloc_direct_grows[of st d ss i l] by simp

lemma inode_alloc_iblock_grows':
  "inode_alloc_iblock st sec ss h = (b, s, st1) \<Longrightarrow> grows_by alloc_event st st1"
  using inode_alloc_iblock_grows(1)[of st sec ss h] by simp

lemma inode_alloc_grows:
  "grows_by alloc_event st (snd (snd (inode_alloc nd st d len)))"
proof -
  let ?ss = "bytes_to_sectors len"
  let ?limit = "(if ?ss < nd then ?ss else nd)"
  obtain r ss1 d1 st1 where dl: "inode_alloc_direct st d ?ss 0 ?limit = (r, ss1, d1, st1)"
    by (metis prod_cases4)
  have g1: "grows_by alloc_event st st1"
    using dl by (rule inode_alloc_direct_grows')
  show ?thesis
  proof (cases r)
    case (Some b)
    with dl g1 show ?thesis by (simp add: inode_alloc_def Let_def)
  next
    case None
    let ?il = "(if ss1 < NUM_INDIRECT_PTRS then ss1 else NUM_INDIRECT_PTRS)"
    obtain b s st2 where ib: "(if ?il > 0 then inode_alloc_iblock st1 (indirect_block d1) ?il 1
                       else (True, indirect_block d1, st1)) = (b, s, st2)"
      by (metis prod_cases3)
    have "grows_by alloc_event st1 st2"
      using ib by (cases "?il > 0") (auto dest: inode_alloc_iblock_grows' simp del: One_nat_def)
    with g1 have g2: "grows_by alloc_event st st2" by (rule grows_by_trans)
    show ?thesis
    proof (cases b)
      case False
      with dl None ib g2 show ?thesis
        by (simp add: inode_alloc_def Let_def)
    next
      case True
      let ?d2 = "d1\<lparr>indirect_block := s\<rparr>"
      let ?ss2 = "ss1 - ?il"
      let ?dl2 = "(if ?ss2 < NUM_DBL_INDIRECT_PTRS then ?ss2 else NUM_DBL_INDIRECT_PTRS)"
      obtain b3 s3 st3 where db: "(if ?dl2 > 0 then inode_alloc_iblock st2 (doubly_indirect_block ?d2) ?dl2 2
                       else (True, doubly_indirect_block ?d2, st2)) = (b3, s3, st3)"
        by (metis prod_cases3)
      have "grows_by alloc_event st2 st3"
        using db by (cases "?dl2 > 0") (auto dest: inode_alloc_iblock_grows')
      with g2 have g3: "grows_by alloc_event st st3" by (rule grows_by_trans)
      from dl None ib True db g2 g3 show ?thesis
        by (cases b3; cases "?ss2 \<le> 0") (simp_all add: inode_alloc_def Let_def)
    qed
  qed
qed


lemma byte_to_sector_grows:
  "(\<And>s. P (Ev_read s)) \<Longrightarrow> grows_by P st (snd (byte_to_sector nd st inode pos))"
  by (simp add: byte_to_sector_def Let_def grows_by_def block_read_def split: prod.splits)

lemma write_loop_unfold:
  "write_loop nd bounce_ok st inode buffer sz offset bytes_written bounce =
     (if sz > 0 then
        (case byte_to_sector nd st inode offset of
           (Inl e, st1) \<Rightarrow> (Inl e, st1)
         | (Inr sector_idx, st1) \<Rightarrow>
             (if chunk_of inode sz offset \<le> 0 then (Inr bytes_written, st1)
              else if offset smod BLOCK_SECTOR_SIZE = 0 \<and> chunk_of inode sz offset = BLOCK_SECTOR_SIZE then
                write_loop nd bounce_ok
                  (block_write st1 sector_idx (Data (take 512 (drop (nat bytes_written) buffer))))
                  inode buffer (sz - chunk_of inode sz offset) (off_t_of (offset + chunk_of inode sz offset))
                  (bytes_written + chunk_of inode sz offset) bounce
              else if \<not> bounce \<and> \<not> bounce_ok then (Inr bytes_written, st1)
              else
                (case (if offset smod BLOCK_SECTOR_SIZE > 0
                          \<or> chunk_of inode sz offset < BLOCK_SECTOR_SIZE - offset smod BLOCK_SECTOR_SIZE
                       then (case block_read st1 sector_idx of (c, st') \<Rightarrow> (bytes_of c, st'))
                       else (replicate 512 0, st1)) of
                   (old, st2) \<Rightarrow>
                     if offset smod BLOCK_SECTOR_SIZE < 0 then (Inl Out_of_bounds, st2)
                     else write_loop nd bounce_ok
                            (block_write st2 sector_idx
                               (Data (take (nat (offset smod BLOCK_SECTOR_SIZE)) old
                                      @ take (nat (chunk_of inode sz offset)) (drop (nat bytes_written) buffer)
                                      @ drop (nat (offset smod BLOCK_SECTOR_SIZE) + nat (chunk_of inode sz offset)) old)))
                            inode buffer (sz - chunk_of inode sz offset) (off_t_of (offset + chunk_of inode sz offset))
                            (bytes_written + chunk_of inode sz offset) True)))
      else (Inr bytes_written, st))"
  by (subst write_loop.simps) (auto simp: Let_def chunk_of_def split: prod.splits sum.splits)

lemma write_loop_grows:
  "grows_by data_event st (snd (write_loop nd bounce_ok (st :: 'a fs_state_scheme) inode buffer sz offset bytes_written bounce))"
proof (induction "nat sz" arbitrary: sz offset bytes_written bounce bounce_ok st rule: less_induct)
  case less
  have k: "chunk_of inode sz offset \<le> sz" by (rule chunk_of_le)
  have IH: "grows_by data_event st (snd (write_loop nd bo' st' inode buffer (sz - k) offset' bw' bounce'))"
    if "grows_by data_event st st'" "0 < k" "k \<le> sz"
    for st' :: "'a fs_state_scheme" and offset' bw' bounce' bo' k
    using less.hyps[of "sz - k" st' bo' offset' bw' bounce'] that
    by (auto intro: grows_by_trans)
  have b: "grows_by data_event st (snd (byte_to_sector nd st inode offset))"
    by (rule byte_to_sector_grows) simp
  have w: "grows_by data_event st st' \<Longrightarrow> grows_by data_event st (block_write st' s (Data bs))"
    for st' :: "'a fs_state_scheme" and s bs
    by (erule grows_by_trans) (simp add: grows_by_block_write)
  have r: "grows_by data_event st st' \<Longrightarrow> block_read st' s = (c, st'') \<Longrightarrow> grows_by data_event st st''"
    for st' st'' :: "'a fs_state_scheme" and s c
    using grows_by_block_read[of data_event s st'] by (auto intro: grows_by_trans)
  show ?case
    using b k
    by (subst write_loop_unfold)
       (auto split: prod.splits sum.splits if_splits intro!: IH w intro: r)
qed


lemma replicate_update_0: "0 < n \<Longrightarrow> (replicate n x)[0 := y] = y # replicate (n - 1) x"
  by (cases n) simp_all

lemma replicate_pos: "0 < n \<Longrightarrow> replicate n x = x # replicate (n - 1) x"
  by (cases n) simp_all

text \<open>
  C6. The claim holds for the sum \<open>offset + size\<close> as the code computes it, in 32 bits:
  \<open>off_t_of (offset + sz)\<close>, which is \<open>offset + size\<close> itself up to \<open>2147483647\<close>. A
  write on an inode whose deny-write count is not zero returns 0 at once and changes
  nothing. When the sum exceeds the length and the growth fails, the call returns 0 in the
  state the allocation left, whose new events are allocation events only. When the growth
  succeeds, the record with the sum as its new length is written to the inode's sector
  right after the allocation, and everything the call logs after that write are the reads
  and writes of the data loop.
\<close>

theorem inode_write_at_growth:
  "(deny_write_cnt inode \<noteq> 0 \<longrightarrow> inode_write_at nd bounce_ok st inode buffer sz offset = (Inr 0, inode, st))
   \<and> (deny_write_cnt inode = 0 \<and> inode_length inode < off_t_of (offset + sz) \<longrightarrow>
       (case inode_alloc nd st (data inode) (off_t_of (offset + sz)) of
          (False, d1, st1) \<Rightarrow>
            inode_write_at nd bounce_ok st inode buffer sz offset = (Inr 0, inode\<lparr>data := d1\<rparr>, st1)
            \<and> grows_by alloc_event st st1
        | (True, d1, st1) \<Rightarrow>
            grows_by alloc_event st st1
            \<and> fst (snd (inode_write_at nd bounce_ok st inode buffer sz offset))
                = inode\<lparr>data := d1\<lparr>length_d := off_t_of (offset + sz)\<rparr>\<rparr>
            \<and> grows_by data_event
                 (block_write st1 (sector inode) (Record (d1\<lparr>length_d := off_t_of (offset + sz)\<rparr>)))
                 (snd (snd (inode_write_at nd bounce_ok st inode buffer sz offset)))))
   \<and> (off_t_range (offset + sz) \<longrightarrow> off_t_of (offset + sz) = offset + sz)"
proof (intro conjI impI)
  assume "deny_write_cnt inode \<noteq> 0"
  then show "inode_write_at nd bounce_ok st inode buffer sz offset = (Inr 0, inode, st)"
    by (simp add: inode_write_at_def)
next
  assume a: "deny_write_cnt inode = 0 \<and> inode_length inode < off_t_of (offset + sz)"
  let ?t = "off_t_of (offset + sz)"
  obtain b d1 st1 where al: "inode_alloc nd st (data inode) ?t = (b, d1, st1)"
    by (metis prod_cases3)
  have g: "grows_by alloc_event st st1"
    using inode_alloc_grows[of st nd "data inode" ?t] al by simp
  show "case inode_alloc nd st (data inode) ?t of
          (False, d1, st1) \<Rightarrow>
            inode_write_at nd bounce_ok st inode buffer sz offset = (Inr 0, inode\<lparr>data := d1\<rparr>, st1)
            \<and> grows_by alloc_event st st1
        | (True, d1, st1) \<Rightarrow>
            grows_by alloc_event st st1
            \<and> fst (snd (inode_write_at nd bounce_ok st inode buffer sz offset))
                = inode\<lparr>data := d1\<lparr>length_d := ?t\<rparr>\<rparr>
            \<and> grows_by data_event
                 (block_write st1 (sector inode) (Record (d1\<lparr>length_d := ?t\<rparr>)))
                 (snd (snd (inode_write_at nd bounce_ok st inode buffer sz offset)))"
  proof (cases b)
    case False
    with a al g show ?thesis by (simp add: inode_write_at_def)
  next
    case True
    let ?i1 = "inode\<lparr>data := d1\<lparr>length_d := ?t\<rparr>\<rparr>"
    let ?st2 = "block_write st1 (sector inode) (Record (d1\<lparr>length_d := ?t\<rparr>))"
    have "grows_by data_event ?st2 (snd (write_loop nd bounce_ok ?st2 ?i1 buffer sz offset 0 False))"
      by (rule write_loop_grows)
    with a al g True show ?thesis
      by (auto simp: inode_write_at_def Let_def split: prod.splits)
  qed
next
  assume "off_t_range (offset + sz)"
  then show "off_t_of (offset + sz) = offset + sz" by (rule off_t_of_id)
qed

lemma wr_eval_fail:
  "inode_alloc 123 (wr_state []) (data wr_inode) 1 = (False, data wr_inode, (wr_state [])\<lparr>trace := [Ev_alloc None]\<rparr>)"
  by (simp add: inode_alloc_def bytes_to_sectors_def off_t_of_def sdiv_nonneg inode_alloc_direct.simps wr_inode_def
      wr_state_def free_map_allocate_def)

lemma wr_eval_ok:
  "inode_alloc 123 (wr_state [20]) (data wr_inode) 1 =
     (True, (data wr_inode)\<lparr>direct_blocks := 20 # replicate 122 0\<rparr>,
      \<lparr>disk = (\<lambda>s. zeros)(9 := Record (data wr_inode), 20 := zeros), free_map = [],
       trace = [Ev_write 20 zeros, Ev_alloc (Some 20)]\<rparr>)"
  by (simp add: inode_alloc_def bytes_to_sectors_def off_t_of_def sdiv_nonneg inode_alloc_direct.simps wr_inode_def
      wr_state_def free_map_allocate_def block_write_def Let_def replicate_update_0)

lemma wr_eval_write:
  "inode_write_at 123 True (wr_state [20]) wr_inode [7] 1 0 =
     (Inr 1, wr_inode\<lparr>data := (data wr_inode)\<lparr>direct_blocks := 20 # replicate 122 0, length_d := 1\<rparr>\<rparr>,
      \<lparr>disk = (\<lambda>s. zeros)
          (9 := Record ((data wr_inode)\<lparr>direct_blocks := 20 # replicate 122 0, length_d := 1\<rparr>),
           20 := Data (7 # replicate 511 0)),
       free_map = [],
       trace = [Ev_write 20 (Data (7 # replicate 511 0)), Ev_read 20,
                Ev_write 9 (Record ((data wr_inode)\<lparr>direct_blocks := 20 # replicate 122 0, length_d := 1\<rparr>)),
                Ev_write 20 zeros, Ev_alloc (Some 20)]\<rparr>)"
  apply (simp add: inode_write_at_def off_t_of_def wr_eval_ok inode_length_def)
  apply (simp add: wr_inode_def)
  apply (simp add: write_loop.simps byte_to_sector_def Let_def inode_length_def off_t_of_def
      block_read_def block_write_def sdiv_nonneg smod_nonneg zeros_def fun_upd_twist)
  done

theorem inode_write_at_growth_witness:
  "inode_write_at 123 True (wr_state [20]) (wr_inode\<lparr>deny_write_cnt := 1\<rparr>) [7] 1 0
     = (Inr 0, wr_inode\<lparr>deny_write_cnt := 1\<rparr>, wr_state [20])
   \<and> inode_write_at 123 True (wr_state []) wr_inode [7] 1 0
     = (Inr 0, wr_inode, (wr_state [])\<lparr>trace := [Ev_alloc None]\<rparr>)
   \<and> grows_by alloc_event (wr_state []) ((wr_state [])\<lparr>trace := [Ev_alloc None]\<rparr>)
   \<and> grows_by data_event
        (block_write
           \<lparr>disk = (\<lambda>s. zeros)(9 := Record (data wr_inode), 20 := zeros), free_map = [],
            trace = [Ev_write 20 zeros, Ev_alloc (Some 20)]\<rparr>
           9 (Record ((data wr_inode)\<lparr>direct_blocks := 20 # replicate 122 0, length_d := 1\<rparr>)))
        (snd (snd (inode_write_at 123 True (wr_state [20]) wr_inode [7] 1 0)))
   \<and> trace (snd (snd (inode_write_at 123 True (wr_state [20]) wr_inode [7] 1 0)))
     = [Ev_write 20 (Data (7 # replicate 511 0)), Ev_read 20,
        Ev_write 9 (Record ((data wr_inode)\<lparr>direct_blocks := 20 # replicate 122 0, length_d := 1\<rparr>)),
        Ev_write 20 zeros, Ev_alloc (Some 20)]
   \<and> off_t_range (0 + 1) \<and> off_t_of (0 + 1) = 0 + 1"
proof -
  have l: "inode_length wr_inode = 0" "deny_write_cnt wr_inode = 0" "sector wr_inode = 9"
    by (simp_all add: inode_length_def wr_inode_def)
  have o: "off_t_of (0 + 1) = 1" "off_t_range (0 + 1)" by (simp_all add: off_t_of_def off_t_range_def)
  from inode_write_at_growth[of "wr_inode\<lparr>deny_write_cnt := 1\<rparr>" 123 True "wr_state [20]" "[7]" 1 0]
  have a: "inode_write_at 123 True (wr_state [20]) (wr_inode\<lparr>deny_write_cnt := 1\<rparr>) [7] 1 0
     = (Inr 0, wr_inode\<lparr>deny_write_cnt := 1\<rparr>, wr_state [20])"
    by simp
  from inode_write_at_growth[of wr_inode 123 True "wr_state []" "[7]" 1 0] l o
  have b: "inode_write_at 123 True (wr_state []) wr_inode [7] 1 0
     = (Inr 0, wr_inode, (wr_state [])\<lparr>trace := [Ev_alloc None]\<rparr>)
     \<and> grows_by alloc_event (wr_state []) ((wr_state [])\<lparr>trace := [Ev_alloc None]\<rparr>)"
    by (simp add: wr_eval_fail)
  from inode_write_at_growth[of wr_inode 123 True "wr_state [20]" "[7]" 1 0] l o
  have c: "grows_by data_event
        (block_write
           \<lparr>disk = (\<lambda>s. zeros)(9 := Record (data wr_inode), 20 := zeros), free_map = [],
            trace = [Ev_write 20 zeros, Ev_alloc (Some 20)]\<rparr>
           9 (Record ((data wr_inode)\<lparr>direct_blocks := 20 # replicate 122 0, length_d := 1\<rparr>)))
        (snd (snd (inode_write_at 123 True (wr_state [20]) wr_inode [7] 1 0)))"
    by (simp add: wr_eval_ok)
  show ?thesis using a b c o by (simp add: wr_eval_write)
qed

text \<open>
  C6, the claim as it is stated: a file of 600 bytes is written \<open>2147483647\<close> bytes at
  offset 1. \<open>offset + size\<close> exceeds the length, but the 32-bit sum is \<open>- 2147483648\<close>:
  the code requests no sector and writes no record, the length stays 600, and the data
  loop writes the 599 bytes up to the old end of the file.
\<close>

theorem inode_write_at_sum_wraps:
  "deny_write_cnt rd_inode = 0 \<and> inode_length rd_inode < 1 + 2147483647
   \<and> off_t_of (1 + 2147483647) = - 2147483648
   \<and> fst (inode_write_at 123 True rd_state rd_inode (replicate 2147483647 7) 2147483647 1) = Inr 599
   \<and> fst (snd (inode_write_at 123 True rd_state rd_inode (replicate 2147483647 7) 2147483647 1)) = rd_inode
   \<and> trace (snd (snd (inode_write_at 123 True rd_state rd_inode (replicate 2147483647 7) 2147483647 1)))
     = [Ev_write 11 (Data (replicate 88 7 @ replicate 424 2)), Ev_read 11,
        Ev_write 10 (Data (1 # replicate 511 7)), Ev_read 10]"
proof -
  have l: "deny_write_cnt rd_inode = 0" "inode_length rd_inode = 600"
    by (simp_all add: rd_inode_def inode_length_def)
  have o: "off_t_of (1 + 2147483647) = - 2147483648" by (simp add: off_t_of_def)
  have w: "inode_write_at 123 True rd_state rd_inode (replicate 2147483647 7) 2147483647 1
           = (case write_loop 123 True rd_state rd_inode (replicate 2147483647 7) 2147483647 1 0 False of
                (r, st3) \<Rightarrow> (r, rd_inode, st3))"
    using l o by (simp add: inode_write_at_def)
  have e: "write_loop 123 True rd_state rd_inode (replicate 2147483647 7) 2147483647 1 0 False
           = (Inr 599,
              \<lparr>disk = (\<lambda>s. zeros)(10 := Data (1 # replicate 511 7),
                                    11 := Data (replicate 88 7 @ replicate 424 2)),
               free_map = [],
               trace = [Ev_write 11 (Data (replicate 88 7 @ replicate 424 2)), Ev_read 11,
                        Ev_write 10 (Data (1 # replicate 511 7)), Ev_read 10]\<rparr>)"
    by (simp add: write_loop.simps byte_to_sector_def Let_def rd_inode_def rd_state_def inode_length_def
        off_t_of_def block_read_def block_write_def sdiv_nonneg smod_nonneg replicate_pos[of 512])
  show ?thesis using l o unfolding w e by simp
qed

subsection \<open>Deallocation\<close>

text \<open>
  What the loops of \<open>inode_dealloc\<close> and of \<open>inode_dealloc_iblock\<close> do, in closed
  form. At height 1 the function releases the block itself and returns, so the entries of
  a single-indirect block are never released. At height 2 it releases the first
  \<open>sector_size div 128\<close> entries of the doubly-indirect block (without looking into the
  blocks they point to), then the block itself, and then the block itself once more after
  the loop.
\<close>

lemma release_all_simps [simp]:
  "release_all st [] = st"
  "release_all st (x # xs) = release_all (free_map_release st x) xs"
  by (simp_all add: release_all_def)

lemma release_all_fields:
  "disk (release_all st xs) = disk st"
  "free_map (release_all st xs) = rev xs @ free_map st"
  "trace (release_all st xs) = map Ev_release (rev xs) @ trace st"
  "fs_state.more (release_all st xs) = fs_state.more st"
  by (induction xs arbitrary: st) (simp_all add: free_map_release_def)

lemma dealloc_direct_eq:
  "dealloc_direct st d sector_size index limit =
     (sector_size - (limit - index), release_all st (map ((!) (direct_blocks d)) [index..<limit]))"
proof (induction st d sector_size index limit rule: dealloc_direct.induct)
  case (1 st d sector_size index limit)
  show ?case
  proof (cases "index < limit")
    case True
    then have "[index..<limit] = index # [index + 1..<limit]" by (simp add: upt_conv_Cons)
    with True "1.IH" show ?thesis by (subst dealloc_direct.simps) simp
  next
    case False
    then show ?thesis by (subst dealloc_direct.simps) simp
  qed
qed

lemma dealloc_entries_eq:
  "dealloc_entries st blk index limit = release_all st (map ((!) blk) [index..<limit])"
proof (induction st blk index limit rule: dealloc_entries.induct)
  case (1 st blk index limit)
  show ?case
  proof (cases "index < limit")
    case True
    then have "[index..<limit] = index # [index + 1..<limit]" by (simp add: upt_conv_Cons)
    with True "1.IH" show ?thesis by (subst dealloc_entries.simps) simp
  next
    case False
    then show ?thesis by (subst dealloc_entries.simps) simp
  qed
qed

lemma inode_dealloc_iblock_1: "inode_dealloc_iblock st entry sector_size (Suc 0) = free_map_release st entry"
  by (simp add: inode_dealloc_iblock.simps)

lemma dealloc_for_2:
  "(limit - index) * 128 \<le> sector_size \<Longrightarrow>
   dealloc_for st blk sector_size 2 128 index limit =
     (sector_size - (limit - index) * 128, release_all st (map ((!) blk) [index..<limit]))"
proof (induction "limit - index" arbitrary: index st sector_size)
  case 0
  then show ?case by (subst dealloc_for.simps) simp
next
  case (Suc n)
  then have lt: "index < limit" and n: "n = limit - (index + 1)" by simp_all
  have u: "[index..<limit] = index # [index + 1..<limit]" using lt by (simp add: upt_conv_Cons)
  have ge: "128 \<le> sector_size" "(limit - (index + 1)) * 128 \<le> sector_size - 128"
    using Suc.prems Suc.hyps(2) by simp_all
  have "dealloc_for (free_map_release st (blk ! index)) blk (sector_size - 128) 2 128 (index + 1) limit
        = (sector_size - 128 - (limit - (index + 1)) * 128,
           release_all (free_map_release st (blk ! index)) (map ((!) blk) [index + 1..<limit]))"
    using Suc.hyps(1)[OF n ge(2)] .
  moreover have "sector_size - 128 - (limit - (index + 1)) * 128 = sector_size - (limit - index) * 128"
    using lt by (simp add: algebra_simps Suc_diff_Suc)
  ultimately show ?case
    using lt ge u
    by (subst dealloc_for.simps) (simp add: Let_def inode_dealloc_iblock_1)
qed

lemma inode_dealloc_iblock_2:
  "inode_dealloc_iblock st entry sector_size 2 =
     (let blk = ptrs_of (disk st entry);
          st1 = snd (block_read st entry);
          st2 = release_all st1 (map ((!) blk) [0..<sector_size div 128]);
          st3 = free_map_release st2 entry;
          st4 = snd (block_read st3 entry)
      in free_map_release st4 entry)"
proof -
  have le: "(sector_size div 128 - 0) * 128 \<le> sector_size" by simp
  have m: "(sector_size - sector_size div 128 * 128) div 128 = 0"
    by (simp add: minus_div_mult_eq_mod[symmetric] del: minus_div_mult_eq_mod)
  show ?thesis
    apply (subst inode_dealloc_iblock.simps)
    apply (subst dealloc_while.simps)
    apply (simp add: Let_def block_read_def dealloc_for_2[OF le] split: prod.splits)
    apply (subst dealloc_while.simps)
    apply (simp add: Let_def block_read_def dealloc_entries_eq m)
    done
qed


lemma inode_dealloc_negative:
  "length_d d < 0 \<Longrightarrow> inode_dealloc nd st d = (False, st)"
  by (simp add: inode_dealloc_def Let_def)

lemma inode_dealloc_eq:
  "0 \<le> length_d d \<Longrightarrow> inode_dealloc nd st d =
     (let ss = bytes_to_sectors (length_d d);
          limit = min ss nd;
          st1 = release_all st (map ((!) (direct_blocks d)) [0..<limit]);
          ss1 = ss - limit;
          st2 = (if 0 < ss1 then free_map_release st1 (indirect_block d) else st1);
          ss2 = ss1 - min ss1 128
      in (True, if 0 < ss2 then inode_dealloc_iblock st2 (doubly_indirect_block d) (min ss2 16384) 2
                else st2))"
proof -
  assume len: "0 \<le> length_d d"
  let ?ss = "bytes_to_sectors (length_d d)"
  have lim: "(if ?ss < nd then ?ss else nd) = min ?ss nd" by (simp add: min_def)
  have il: "(if n < NUM_INDIRECT_PTRS then n else NUM_INDIRECT_PTRS) = min n 128" for n :: nat
    by (simp add: min_def)
  have dl: "(if n < NUM_DBL_INDIRECT_PTRS then n else NUM_DBL_INDIRECT_PTRS) = min n 16384" for n :: nat
    by (simp add: min_def)
  have p: "0 < min n (128::nat) \<longleftrightarrow> 0 < n" "0 < min n (16384::nat) \<longleftrightarrow> 0 < n" for n by simp_all
  show ?thesis
    using len
    unfolding inode_dealloc_def Let_def lim il dl dealloc_direct_eq p
    by (simp add: inode_dealloc_iblock_1)
qed

text \<open>In the single-indirect range only the direct sectors and the indirect block are released.\<close>

lemma inode_dealloc_single_indirect:
  assumes "0 \<le> length_d d" "nd < bytes_to_sectors (length_d d)"
    and "bytes_to_sectors (length_d d) \<le> nd + 128"
  shows "snd (inode_dealloc nd st d) =
           free_map_release (release_all st (map ((!) (direct_blocks d)) [0..<nd])) (indirect_block d)"
  using assms by (simp add: inode_dealloc_eq Let_def min_def)

lemma ex_sectors: "bytes_to_sectors (length_d ex_record) = 379"
  by (simp add: bytes_to_sectors_def off_t_of_def sdiv_nonneg ex_record_def)

lemma ex_dealloc:
  "trace (snd (inode_dealloc 123 ex_state ex_record)) =
     [Ev_release 262, Ev_read 262, Ev_release 262, Ev_release 263, Ev_read 262, Ev_release 133]
       @ map Ev_release (rev (direct_blocks ex_record))"
  "free_map (snd (inode_dealloc 123 ex_state ex_record)) =
     [262, 262, 263, 133] @ rev (direct_blocks ex_record) @ free_map ex_state"
proof -
  have l: "0 \<le> length_d ex_record" "indirect_block ex_record = 133" "doubly_indirect_block ex_record = 262"
    by (simp_all add: ex_record_def)
  have len: "length (direct_blocks ex_record) = 123" by (simp add: ex_record_def)
  have m: "map ((!) (direct_blocks ex_record)) [0..<123] = direct_blocks ex_record"
    using map_nth[of "direct_blocks ex_record"] by (simp only: len)
  define st2 where "st2 = free_map_release (release_all ex_state (direct_blocks ex_record)) 133"
  have d: "ptrs_of (disk st2 262) = 263 # replicate 127 0"
    by (simp add: st2_def free_map_release_def release_all_fields ex_state_def ptrs_of_def)
  have r: "snd (inode_dealloc 123 ex_state ex_record) = inode_dealloc_iblock st2 262 128 2"
    by (simp add: inode_dealloc_eq[OF l(1)] ex_sectors Let_def m l st2_def)
  have t2: "trace st2 = Ev_release 133 # map Ev_release (rev (direct_blocks ex_record))"
    "free_map st2 = 133 # rev (direct_blocks ex_record) @ free_map ex_state"
    by (simp_all add: st2_def free_map_release_def release_all_fields ex_state_def)
  show "trace (snd (inode_dealloc 123 ex_state ex_record)) =
     [Ev_release 262, Ev_read 262, Ev_release 262, Ev_release 263, Ev_read 262, Ev_release 133]
       @ map Ev_release (rev (direct_blocks ex_record))"
    by (simp add: r inode_dealloc_iblock_2 Let_def d block_read_def free_map_release_def t2)
  show "free_map (snd (inode_dealloc 123 ex_state ex_record)) =
     [262, 262, 263, 133] @ rev (direct_blocks ex_record) @ free_map ex_state"
    by (simp add: r inode_dealloc_iblock_2 Let_def d block_read_def free_map_release_def t2)
qed


lemma ex_direct_small: "x \<in> set (direct_blocks ex_record) \<Longrightarrow> unat x < 133"
proof -
  assume "x \<in> set (direct_blocks ex_record)"
  then have "x \<in> word_of_nat ` {10..<133}"
    by (simp add: ex_record_def del: upt_rec_numeral)
  then obtain n where n: "n < 133" "x = word_of_nat n" by auto
  then have "unat x = n" by (simp add: unat_of_nat)
  with n show ?thesis by simp
qed

text \<open>
  C1. The claim: deallocation releases every data sector at the leaves and every
  indirection block, each reachable sector exactly once, children before their parent,
  and not the record's own sector. On the example file of 379 sectors the code releases the
  123 direct sectors, the indirect block 133, the child block 263, and the doubly-indirect
  block 262 twice; the data sector 134, the first entry of the indirect block, is never
  released, nor is any other leaf below an indirection block.
\<close>

theorem inode_dealloc_misses_leaves:
  "trace (snd (inode_dealloc 123 ex_state ex_record)) =
     [Ev_release 262, Ev_read 262, Ev_release 262, Ev_release 263, Ev_read 262, Ev_release 133]
       @ map Ev_release (rev (direct_blocks ex_record))
   \<and> ptrs_of (disk ex_state (indirect_block ex_record)) ! 0 = 134
   \<and> Ev_release 134 \<notin> set (trace (snd (inode_dealloc 123 ex_state ex_record)))
   \<and> count_list (trace (snd (inode_dealloc 123 ex_state ex_record))) (Ev_release 262) = 2"
proof -
  have a: "Ev_release 134 \<notin> set (map Ev_release (rev (direct_blocks ex_record)))"
    using ex_direct_small[of 134] by auto
  have b: "Ev_release 262 \<notin> set (map Ev_release (rev (direct_blocks ex_record)))"
    using ex_direct_small[of 262] by auto
  have c: "ptrs_of (disk ex_state (indirect_block ex_record)) ! 0 = 134"
    by (simp add: ex_record_def ex_state_def ptrs_of_def)
  show ?thesis
    using a b c by (simp add: ex_dealloc(1) count_list_0_iff[THEN iffD2, OF b])
qed

subsection \<open>The open inodes\<close>

lemma release_all_kernel:
  "heap (release_all st xs) = heap st" "open_inodes (release_all st xs) = open_inodes st"
  by (induction xs arbitrary: st) (simp_all add: free_map_release_def)

lemma inode_dealloc_kernel:
  "heap (snd (inode_dealloc nd st d)) = heap st \<and> open_inodes (snd (inode_dealloc nd st d)) = open_inodes st"
proof (cases "length_d d < 0")
  case True
  then show ?thesis by (simp add: inode_dealloc_negative)
next
  case False
  then have "0 \<le> length_d d" by simp
  then show ?thesis
    by (simp add: inode_dealloc_eq Let_def inode_dealloc_iblock_2 block_read_def free_map_release_def
          release_all_kernel)
qed

lemma find_open_Some:
  "find_open hp es s = Some p \<Longrightarrow> p \<in> set es \<and> (\<exists>i. hp p = Some i \<and> sector i = s)"
  by (induction es) (auto split: option.splits if_splits)

lemma find_open_None:
  "find_open hp es s = None \<Longrightarrow> e \<in> set es \<Longrightarrow> hp e = Some i \<Longrightarrow> sector i \<noteq> s"
  by (induction es) (auto split: option.splits if_splits)

lemma find_open_live:
  assumes "set es = dom hp" "hp p = Some i" "sector i = s"
    and "\<forall>p q i j. hp p = Some i \<and> hp q = Some j \<and> sector i = sector j \<longrightarrow> p = q"
  shows "find_open hp es s = Some p"
proof (cases "find_open hp es s")
  case None
  from assms(1,2) have "p \<in> set es" by auto
  from find_open_None[OF None this assms(2)] assms(3) show ?thesis by simp
next
  case (Some q)
  from find_open_Some[OF Some] obtain j where "hp q = Some j" "sector j = s" by auto
  with assms(2,3,4) have "p = q" by blast
  with Some show ?thesis by simp
qed


lemma handles_invI:
  assumes "distinct (open_inodes st)" "set (open_inodes st) = dom (heap st)"
    and "\<And>p i. heap st p = Some i \<Longrightarrow> open_cnt i = c p \<and> 0 < c p"
    and "\<And>p. heap st p = None \<Longrightarrow> c p = 0"
    and "\<And>p q i j. heap st p = Some i \<Longrightarrow> heap st q = Some j \<Longrightarrow> sector i = sector j \<Longrightarrow> p = q"
  shows "handles_inv st c"
  using assms unfolding handles_inv_def by blast

lemma handles_invD:
  assumes "handles_inv st c"
  shows "distinct (open_inodes st)" "set (open_inodes st) = dom (heap st)"
    and "\<And>p i. heap st p = Some i \<Longrightarrow> open_cnt i = c p \<and> 0 < c p"
    and "\<And>p. heap st p = None \<Longrightarrow> c p = 0"
    and "\<And>p q i j. heap st p = Some i \<Longrightarrow> heap st q = Some j \<Longrightarrow> sector i = sector j \<Longrightarrow> p = q"
  using assms unfolding handles_inv_def by blast+

lemma handles_inv_upd:
  assumes inv: "handles_inv st c" and live: "heap st p = Some i"
    and sec: "sector i' = sector i" and cnt: "open_cnt i' = c' p" "0 < c' p"
    and oth: "\<And>q. q \<noteq> p \<Longrightarrow> c' q = c q"
  shows "handles_inv (st\<lparr>heap := (heap st)(p \<mapsto> i')\<rparr>) c'"
proof (rule handles_invI)
  note D = handles_invD[OF inv]
  let ?st = "st\<lparr>heap := (heap st)(p \<mapsto> i')\<rparr>"
  show "distinct (open_inodes ?st)" using D(1) by simp
  show "set (open_inodes ?st) = dom (heap ?st)" using D(2) live by auto
  show "open_cnt j = c' q \<and> 0 < c' q" if "heap ?st q = Some j" for q j
    using that D(3)[of q j] cnt oth[of q] by (cases "q = p") auto
  show "c' q = 0" if "heap ?st q = None" for q
    using that D(4)[of q] oth[of q] by (cases "q = p") auto
  show "q = r" if "heap ?st q = Some j" "heap ?st r = Some k" "sector j = sector k" for q r j k
  proof -
    have a: "\<exists>j0. heap st q = Some j0 \<and> sector j0 = sector j"
      using that(1) live sec by (cases "q = p") auto
    have b: "\<exists>k0. heap st r = Some k0 \<and> sector k0 = sector k"
      using that(2) live sec by (cases "r = p") auto
    from a b that(3) show ?thesis using D(5)[of q _ r] by auto
  qed
qed

lemma apply_op_inv:
  assumes inv: "handles_inv st c" and ok: "op_ok st x"
  shows "handles_inv (snd (apply_op nd st x))
           (\<lambda>p. c p + (if fst (apply_op nd st x) = Some p then 1 else 0) - (if x = Close p then 1 else 0))"
proof -
  note D = handles_invD[OF inv]
  show ?thesis
  proof (cases x)
    case (Reopen p)
    with ok obtain i where i: "heap st p = Some i" by auto
    show ?thesis
      unfolding Reopen
      using D(3)[OF i] by (auto simp: inode_reopen_def i intro!: handles_inv_upd[OF inv i])
  next
    case (Remove p)
    with ok obtain i where i: "heap st p = Some i" by auto
    show ?thesis
      unfolding Remove
      using D(3)[OF i] by (auto simp: inode_remove_def i intro!: handles_inv_upd[OF inv i])
  next
    case (Deny_write p)
    with ok obtain i where i: "heap st p = Some i" by auto
    show ?thesis
      unfolding Deny_write
      using D(3)[OF i] inv by (auto simp: inode_deny_write_def i Let_def intro!: handles_inv_upd[OF inv i])
  next
    case (Allow_write p)
    with ok obtain i where i: "heap st p = Some i" by auto
    show ?thesis
      unfolding Allow_write
      using D(3)[OF i] inv by (auto simp: inode_allow_write_def i Let_def intro!: handles_inv_upd[OF inv i])
  next
    case (Open s m)
    show ?thesis
    proof (cases "find_open (heap st) (open_inodes st) s")
      case (Some p)
      from find_open_Some[OF Some] obtain i where i: "heap st p = Some i" by auto
      show ?thesis
        unfolding Open
        using D(3)[OF i] by (auto simp: inode_open_def Some inode_reopen_def i intro!: handles_inv_upd[OF inv i])
    next
      case None
      show ?thesis
      proof (cases m)
        case mn: None
        with None inv show ?thesis unfolding Open by (simp add: inode_open_def)
      next
        case (Some p)
        with ok Open have fresh: "heap st p = None" by simp
        let ?i = "\<lparr>sector = s, open_cnt = 1, removed = False, deny_write_cnt = 0,
                    data = record_of nd (disk st s)\<rparr>"
        let ?st = "st\<lparr>open_inodes := p # open_inodes st, trace := Ev_read s # trace st,
                      heap := (heap st)(p \<mapsto> ?i)\<rparr>"
        have r: "apply_op nd st x = (Some p, ?st)"
          unfolding Open by (simp add: inode_open_def None Some Let_def block_read_def)
        have pn: "p \<notin> set (open_inodes st)" using D(2) fresh by auto
        have "handles_inv ?st (\<lambda>q. c q + (if Some p = Some q then 1 else 0) - (if x = Close q then 1 else 0))"
        proof (rule handles_invI)
          show "distinct (open_inodes ?st)" using D(1) pn by simp
          show "set (open_inodes ?st) = dom (heap ?st)" using D(2) by auto
          show "open_cnt j = c q + (if Some p = Some q then 1 else 0) - (if x = Close q then 1 else 0)
                \<and> 0 < c q + (if Some p = Some q then 1 else 0) - (if x = Close q then 1 else 0)"
            if "heap ?st q = Some j" for q j
            using that D(3)[of q j] D(4)[OF fresh] Open by (cases "q = p") auto
          show "c q + (if Some p = Some q then 1 else 0) - (if x = Close q then 1 else 0) = 0"
            if "heap ?st q = None" for q
            using that D(4)[of q] Open by (cases "q = p") auto
          show "q = r" if "heap ?st q = Some j" "heap ?st r = Some k" "sector j = sector k" for q r j k
          proof (cases "q = p"; cases "r = p")
            assume "q = p" "r \<noteq> p"
            with that have k: "heap st r = Some k" "sector k = s" by auto
            then have "r \<in> set (open_inodes st)" using D(2) by auto
            from find_open_None[OF None this k(1)] k(2) show ?thesis by simp
          next
            assume "q \<noteq> p" "r = p"
            with that have k: "heap st q = Some j" "sector j = s" by auto
            then have "q \<in> set (open_inodes st)" using D(2) by auto
            from find_open_None[OF None this k(1)] k(2) show ?thesis by simp
          next
            assume "q \<noteq> p" "r \<noteq> p"
            with that D(5)[of q j r k] show ?thesis by auto
          qed simp
        qed
        then show ?thesis by (simp add: r)
      qed
    qed
  next
    case (Close p)
    with ok obtain i where i: "heap st p = Some i" by auto
    note ci = D(3)[OF i]
    show ?thesis
    proof (cases "open_cnt i - 1 = 0")
      case False
      then show ?thesis
        unfolding Close using ci
        by (auto simp: inode_close_def i Let_def intro!: handles_inv_upd[OF inv i])
    next
      case True
      let ?st1 = "st\<lparr>open_inodes := remove1 p (open_inodes st)\<rparr>"
      let ?st2 = "(if removed i
                   then snd (inode_dealloc nd (free_map_release ?st1 (sector i)) (data i))
                   else ?st1)"
      have r: "snd (apply_op nd st x) = ?st2\<lparr>heap := (heap ?st2)(p := None)\<rparr>"
        unfolding Close using True by (simp add: inode_close_def i Let_def)
      have h2: "heap ?st2 = heap st" "open_inodes ?st2 = remove1 p (open_inodes st)"
        by (simp_all add: inode_dealloc_kernel free_map_release_def)
      have "handles_inv (?st2\<lparr>heap := (heap ?st2)(p := None)\<rparr>)
              (\<lambda>q. c q + (if fst (apply_op nd st x) = Some q then 1 else 0) - (if x = Close q then 1 else 0))"
      proof (rule handles_invI)
        let ?st = "?st2\<lparr>heap := (heap ?st2)(p := None)\<rparr>"
        have f: "fst (apply_op nd st x) = None" unfolding Close by simp
        show "distinct (open_inodes ?st)" using D(1) by (simp add: h2)
        show "set (open_inodes ?st) = dom (heap ?st)" using D(1,2) by (auto simp: h2)
        show "open_cnt j = c q + (if fst (apply_op nd st x) = Some q then 1 else 0) - (if x = Close q then 1 else 0)
              \<and> 0 < c q + (if fst (apply_op nd st x) = Some q then 1 else 0) - (if x = Close q then 1 else 0)"
          if "heap ?st q = Some j" for q j
          using that D(3)[of q j] Close by (cases "q = p") (auto simp: h2 f)
        show "c q + (if fst (apply_op nd st x) = Some q then 1 else 0) - (if x = Close q then 1 else 0) = 0"
          if "heap ?st q = None" for q
          using that D(4)[of q] Close ci True by (cases "q = p") (auto simp: h2 f)
        show "q = r" if "heap ?st q = Some j" "heap ?st r = Some k" "sector j = sector k" for q r j k
          using that D(5)[of q j r k] by (auto simp: h2 split: if_splits)
      qed
      then show ?thesis by (simp only: r)
    qed
  qed
qed


lemma run_inv:
  "handles_inv st c \<Longrightarrow> valid_ops nd st ops
   \<Longrightarrow> handles_inv (run nd st ops) (\<lambda>p. c p + net_opens nd st ops p)"
proof (induction ops arbitrary: st c)
  case Nil
  then show ?case by simp
next
  case (Cons x xs)
  let ?c = "\<lambda>p. c p + (if fst (apply_op nd st x) = Some p then 1 else 0) - (if x = Close p then 1 else 0)"
  have "handles_inv (snd (apply_op nd st x)) ?c"
    using Cons.prems by (intro apply_op_inv) simp_all
  moreover have "valid_ops nd (snd (apply_op nd st x)) xs" using Cons.prems by simp
  ultimately have "handles_inv (run nd (snd (apply_op nd st x)) xs)
                     (\<lambda>p. ?c p + net_opens nd (snd (apply_op nd st x)) xs p)"
    by (rule Cons.IH)
  moreover have "(\<lambda>p. ?c p + net_opens nd (snd (apply_op nd st x)) xs p)
                 = (\<lambda>p. c p + net_opens nd st (x # xs) p)"
    by (rule ext) simp
  ultimately show ?case by simp
qed

lemma inode_init_inv: "handles_inv (inode_init fs) (\<lambda>p. 0)"
  by (simp add: handles_inv_def inode_init_def fs_state.extend_def)

lemma find_open_reachable:
  assumes v: "valid_ops nd (inode_init fs) ops" and h: "heap (run nd (inode_init fs) ops) p = Some i"
  shows "find_open (heap (run nd (inode_init fs) ops)) (open_inodes (run nd (inode_init fs) ops)) (sector i) = Some p"
proof -
  let ?st = "run nd (inode_init fs) ops"
  have inv: "handles_inv ?st (\<lambda>p. 0 + net_opens nd (inode_init fs) ops p)"
    using inode_init_inv v by (rule run_inv)
  note D = handles_invD[OF inv]
  have u: "\<forall>p q i j. heap ?st p = Some i \<and> heap ?st q = Some j \<and> sector i = sector j \<longrightarrow> p = q"
    using D(5) by blast
  show ?thesis
    by (rule find_open_live[OF D(2) h refl u])
qed


text \<open>
  C9. In every state reached from \<open>inode_init\<close> by calls a C caller may make, a live
  handle's \<open>open_cnt\<close> is the number of \<open>inode_open\<close> and \<open>inode_reopen\<close> calls
  that returned it minus the number of \<open>inode_close\<close> calls on it; and
  \<open>inode_open\<close> on the sector of a live handle returns that very handle with its
  \<open>open_cnt\<close> incremented, changing nothing else: the device is not read (the log is
  unchanged), and the one \<^verbatim>\<open>struct inode\<close> is shared, so what one caller changed in it
  is what the other sees.
\<close>

theorem inode_open_shared_handle:
  "valid_ops nd (inode_init fs) ops \<and> heap (run nd (inode_init fs) ops) p = Some i \<longrightarrow>
     open_cnt i = net_opens nd (inode_init fs) ops p
     \<and> inode_open nd (run nd (inode_init fs) ops) (sector i) m
         = (Some p, (run nd (inode_init fs) ops)
                      \<lparr>heap := (heap (run nd (inode_init fs) ops))(p \<mapsto> i\<lparr>open_cnt := open_cnt i + 1\<rparr>)\<rparr>)"
proof (intro impI, elim conjE)
  assume v: "valid_ops nd (inode_init fs) ops" and h: "heap (run nd (inode_init fs) ops) p = Some i"
  let ?st = "run nd (inode_init fs) ops"
  have inv: "handles_inv ?st (\<lambda>p. 0 + net_opens nd (inode_init fs) ops p)"
    using inode_init_inv v by (rule run_inv)
  have c: "open_cnt i = net_opens nd (inode_init fs) ops p"
    using handles_invD(3)[OF inv h] by simp
  have f: "find_open (heap ?st) (open_inodes ?st) (sector i) = Some p"
    using v h by (rule find_open_reachable)
  have r: "inode_open nd ?st (sector i) m
         = (Some p, ?st\<lparr>heap := (heap ?st)(p \<mapsto> i\<lparr>open_cnt := open_cnt i + 1\<rparr>)\<rparr>)"
    unfolding inode_open_def f inode_reopen_def by (simp add: h)
  from c r show "open_cnt i = net_opens nd (inode_init fs) ops p
     \<and> inode_open nd ?st (sector i) m
         = (Some p, ?st\<lparr>heap := (heap ?st)(p \<mapsto> i\<lparr>open_cnt := open_cnt i + 1\<rparr>)\<rparr>)"
    by (rule conjI)
qed

lemma op_run:
  "run 123 op_kernel op_list =
     \<lparr>disk = (\<lambda>s. zeros)(9 := Record (data wr_inode)), free_map = [], trace = [Ev_read 9],
      heap = [1 \<mapsto> wr_inode\<lparr>deny_write_cnt := 1\<rparr>], open_inodes = [1]\<rparr>"
  by (simp add: op_kernel_def op_list_def inode_init_def wr_state_def fs_state.extend_def
      inode_open_def inode_reopen_def inode_close_def inode_deny_write_def Let_def block_read_def
      wr_inode_def)


theorem inode_open_shared_handle_witness:
  "valid_ops 123 op_kernel op_list
   \<and> heap (run 123 op_kernel op_list) 1 = Some (wr_inode\<lparr>deny_write_cnt := 1\<rparr>)
   \<and> open_cnt (wr_inode\<lparr>deny_write_cnt := 1\<rparr>) = net_opens 123 op_kernel op_list 1
   \<and> net_opens 123 op_kernel op_list 1 = 1
   \<and> fst (inode_open 123 (run 123 op_kernel op_list) 9 (Some 2)) = Some 1
   \<and> heap (snd (inode_open 123 (run 123 op_kernel op_list) 9 (Some 2)))
       = [1 \<mapsto> wr_inode\<lparr>deny_write_cnt := 1, open_cnt := 2\<rparr>]
   \<and> trace (snd (inode_open 123 (run 123 op_kernel op_list) 9 (Some 2))) = trace (run 123 op_kernel op_list)"
proof -
  have v: "valid_ops 123 op_kernel op_list"
    by (simp add: op_kernel_def op_list_def inode_init_def wr_state_def fs_state.extend_def
      inode_open_def inode_reopen_def inode_close_def inode_deny_write_def Let_def block_read_def
      wr_inode_def)
  have n: "net_opens 123 op_kernel op_list 1 = 1"
    by (simp add: op_kernel_def op_list_def inode_init_def wr_state_def fs_state.extend_def
      inode_open_def inode_reopen_def inode_close_def inode_deny_write_def Let_def block_read_def
      wr_inode_def)
  have h: "heap (run 123 op_kernel op_list) 1 = Some (wr_inode\<lparr>deny_write_cnt := 1\<rparr>)"
    by (simp add: op_run)
  have s: "sector (wr_inode\<lparr>deny_write_cnt := 1\<rparr>) = 9" "open_cnt wr_inode = 1"
    by (simp_all add: wr_inode_def)
  from inode_open_shared_handle[of 123 "wr_state []" op_list 1 "wr_inode\<lparr>deny_write_cnt := 1\<rparr>" "Some 2",
      folded op_kernel_def] v h
  show ?thesis by (simp add: n s op_run)
qed

subsection \<open>What closing writes\<close>

lemma grows_by_mono: "(\<And>e. P e \<Longrightarrow> Q e) \<Longrightarrow> grows_by P st st' \<Longrightarrow> grows_by Q st st'"
  by (auto simp: grows_by_def list_all_iff)

lemma read_loop_grows:
  "grows_by (\<lambda>e. \<not> is_write e) st (snd (read_loop nd bounce_ok (st :: 'a fs_state_scheme) inode sz offset bytes_read buffer bounce))"
proof (induction "nat sz" arbitrary: sz offset bytes_read buffer bounce bounce_ok st rule: less_induct)
  case less
  have k: "chunk_of inode sz offset \<le> sz" by (rule chunk_of_le)
  have IH: "grows_by (\<lambda>e. \<not> is_write e) st (snd (read_loop nd bo' st' inode (sz - k) offset' br' buffer' bounce'))"
    if "grows_by (\<lambda>e. \<not> is_write e) st st'" "0 < k" "k \<le> sz"
    for st' :: "'a fs_state_scheme" and offset' br' buffer' bounce' bo' k
    using less.hyps[of "sz - k" st' bo' offset' br' buffer' bounce'] that
    by (auto intro: grows_by_trans)
  have b: "grows_by (\<lambda>e. \<not> is_write e) st (snd (byte_to_sector nd st inode offset))"
    by (rule byte_to_sector_grows) simp
  have r: "grows_by (\<lambda>e. \<not> is_write e) st st' \<Longrightarrow> block_read st' s = (c, st'') \<Longrightarrow> grows_by (\<lambda>e. \<not> is_write e) st st''"
    for st' st'' :: "'a fs_state_scheme" and s c
    using grows_by_block_read[of "\<lambda>e. \<not> is_write e" s st'] by (auto intro: grows_by_trans)
  show ?case
    using b k
    by (subst read_loop_unfold)
       (auto split: prod.splits sum.splits if_splits intro!: IH intro: r)
qed

lemma release_all_grows: "(\<And>s. P (Ev_release s)) \<Longrightarrow> grows_by P st (release_all st xs)"
  by (simp add: grows_by_def release_all_fields list_all_iff)

lemma free_map_release_grows: "P (Ev_release s) \<Longrightarrow> grows_by P st (free_map_release st s)"
  by (simp add: grows_by_def free_map_release_def)

lemma inode_dealloc_grows:
  "grows_by (\<lambda>e. \<not> is_write e) st (snd (inode_dealloc nd st d))"
proof (cases "length_d d < 0")
  case True
  then show ?thesis by (simp add: inode_dealloc_negative)
next
  case False
  then have len: "0 \<le> length_d d" by simp
  have rel: "grows_by (\<lambda>e. \<not> is_write e) st0 st1 \<Longrightarrow> grows_by (\<lambda>e. \<not> is_write e) st0 (free_map_release st1 s)"
    for st0 st1 :: "'a fs_state_scheme" and s
    by (erule grows_by_trans) (simp add: free_map_release_grows)
  have rall: "grows_by (\<lambda>e. \<not> is_write e) st0 st1 \<Longrightarrow> grows_by (\<lambda>e. \<not> is_write e) st0 (release_all st1 xs)"
    for st0 st1 :: "'a fs_state_scheme" and xs
    by (erule grows_by_trans) (simp add: release_all_grows)
  have rd: "grows_by (\<lambda>e. \<not> is_write e) st0 st1 \<Longrightarrow> grows_by (\<lambda>e. \<not> is_write e) st0 (snd (block_read st1 s))"
    for st0 st1 :: "'a fs_state_scheme" and s
    by (erule grows_by_trans) (simp add: grows_by_block_read)
  show ?thesis
    unfolding inode_dealloc_eq[OF len] Let_def inode_dealloc_iblock_2
    by (auto intro!: rel rall rd)
qed



text \<open>
  C10. Closing a handle whose \<open>removed\<close> flag is false leaves the device, the free map
  and the log as they are, also when it is the last close, which frees the in-memory inode
  without writing its record back. No close writes to the device at all (a removed inode's
  close only releases sectors), nor do \<open>inode_open\<close> and \<open>inode_read_at\<close>; and a write
  that does not grow the file writes no inode record. The record is written by
  \<open>inode_create\<close> and by the growth path of \<open>inode_write_at\<close> only.
\<close>

theorem inode_close_not_removed:
  "(heap st p = Some i \<and> \<not> removed i \<longrightarrow>
      disk (inode_close nd st (Some p)) = disk st
      \<and> free_map (inode_close nd st (Some p)) = free_map st
      \<and> trace (inode_close nd st (Some p)) = trace st
      \<and> (open_cnt i = 1 \<longrightarrow>
           heap (inode_close nd st (Some p)) = (heap st)(p := None)
           \<and> open_inodes (inode_close nd st (Some p)) = remove1 p (open_inodes st))
      \<and> (open_cnt i \<noteq> 1 \<longrightarrow>
           heap (inode_close nd st (Some p)) = (heap st)(p \<mapsto> i\<lparr>open_cnt := open_cnt i - 1\<rparr>)
           \<and> open_inodes (inode_close nd st (Some p)) = open_inodes st))
   \<and> grows_by (\<lambda>e. \<not> is_write e) st (inode_close nd st h)
   \<and> grows_by (\<lambda>e. \<not> is_write e) st (snd (inode_open nd st s m))
   \<and> grows_by (\<lambda>e. \<not> is_write e) st' (snd (inode_read_at nd bounce_ok st' inode sz offset))
   \<and> (off_t_of (offset + sz) \<le> inode_length inode \<longrightarrow>
        grows_by (\<lambda>e. \<not> record_write e) st' (snd (snd (inode_write_at nd bounce_ok st' inode buffer sz offset))))"
proof (intro conjI)
  show "heap st p = Some i \<and> \<not> removed i \<longrightarrow>
      disk (inode_close nd st (Some p)) = disk st
      \<and> free_map (inode_close nd st (Some p)) = free_map st
      \<and> trace (inode_close nd st (Some p)) = trace st
      \<and> (open_cnt i = 1 \<longrightarrow>
           heap (inode_close nd st (Some p)) = (heap st)(p := None)
           \<and> open_inodes (inode_close nd st (Some p)) = remove1 p (open_inodes st))
      \<and> (open_cnt i \<noteq> 1 \<longrightarrow>
           heap (inode_close nd st (Some p)) = (heap st)(p \<mapsto> i\<lparr>open_cnt := open_cnt i - 1\<rparr>)
           \<and> open_inodes (inode_close nd st (Some p)) = open_inodes st)"
    by (simp add: inode_close_def Let_def)
next
  have g: "grows_by (\<lambda>e. \<not> is_write e) st1 st2 \<Longrightarrow> trace st3 = trace st2
           \<Longrightarrow> grows_by (\<lambda>e. \<not> is_write e) st1 st3" for st1 st2 st3 :: kernel
    by (simp add: grows_by_def)
  have d: "grows_by (\<lambda>e. \<not> is_write e) st
            (snd (inode_dealloc nd (free_map_release (st\<lparr>open_inodes := xs\<rparr>) sec) dd))" for xs sec dd
  proof -
    have "grows_by (\<lambda>e. \<not> is_write e) st (free_map_release (st\<lparr>open_inodes := xs\<rparr>) sec)"
      by (simp add: grows_by_def free_map_release_def)
    then show ?thesis
      using inode_dealloc_grows by (rule grows_by_trans)
  qed
  show "grows_by (\<lambda>e. \<not> is_write e) st (inode_close nd st h)"
    by (auto simp: inode_close_def Let_def split: option.splits intro: g[OF d])
       (simp_all add: grows_by_def)
next
  show "grows_by (\<lambda>e. \<not> is_write e) st (snd (inode_open nd st s m))"
    by (simp add: inode_open_def inode_reopen_def Let_def block_read_def grows_by_def
          split: option.splits)
next
  show "grows_by (\<lambda>e. \<not> is_write e) st' (snd (inode_read_at nd bounce_ok st' inode sz offset))"
    unfolding inode_read_at_def by (rule read_loop_grows)
next
  show "off_t_of (offset + sz) \<le> inode_length inode \<longrightarrow>
        grows_by (\<lambda>e. \<not> record_write e) st' (snd (snd (inode_write_at nd bounce_ok st' inode buffer sz offset)))"
  proof
    assume le: "off_t_of (offset + sz) \<le> inode_length inode"
    have m: "data_event e \<Longrightarrow> \<not> record_write e" for e
      by (cases e rule: data_event.cases) simp_all
    have "grows_by data_event st' (snd (write_loop nd bounce_ok st' inode buffer sz offset 0 False))"
      by (rule write_loop_grows)
    then have "grows_by (\<lambda>e. \<not> record_write e) st' (snd (write_loop nd bounce_ok st' inode buffer sz offset 0 False))"
      by (rule grows_by_mono[rotated]) (rule m)
    with le show "grows_by (\<lambda>e. \<not> record_write e) st' (snd (snd (inode_write_at nd bounce_ok st' inode buffer sz offset)))"
      by (auto simp: inode_write_at_def split: prod.splits)
  qed
qed


theorem inode_close_not_removed_witness:
  "heap cl_kernel 1 = Some cl_inode \<and> \<not> removed cl_inode \<and> open_cnt cl_inode = 1
   \<and> disk cl_kernel 9 = Record (data wr_inode) \<and> data cl_inode \<noteq> data wr_inode
   \<and> disk (inode_close 123 cl_kernel (Some 1)) = disk cl_kernel
   \<and> trace (inode_close 123 cl_kernel (Some 1)) = []
   \<and> free_map (inode_close 123 cl_kernel (Some 1)) = []
   \<and> heap (inode_close 123 cl_kernel (Some 1)) = Map.empty
   \<and> open_inodes (inode_close 123 cl_kernel (Some 1)) = []
   \<and> off_t_of (100 + 5) \<le> inode_length rd_inode
   \<and> grows_by (\<lambda>e. \<not> record_write e) rd_state
        (snd (snd (inode_write_at 123 True rd_state rd_inode [7, 7, 7, 7, 7] 5 100)))"
proof -
  have h: "heap cl_kernel 1 = Some cl_inode" "\<not> removed cl_inode" "open_cnt cl_inode = 1"
    "disk cl_kernel 9 = Record (data wr_inode)" "inode_length rd_inode = 600" "off_t_of (100 + 5) = 105"
    by (simp_all add: cl_kernel_def cl_inode_def rd_inode_def inode_length_def off_t_of_def)
  have d: "data cl_inode \<noteq> data wr_inode"
    by (simp add: cl_inode_def wr_inode_def replicate_pos[of 123])
  from inode_close_not_removed[where st = cl_kernel and p = 1 and i = cl_inode and nd = 123
      and st' = rd_state and inode = rd_inode and offset = 100 and sz = 5 and bounce_ok = True
      and buffer = "[7, 7, 7, 7, 7]"] h d
  show ?thesis by (simp add: cl_kernel_def)
qed

subsection \<open>Allocation on a fresh record\<close>

text \<open>
  What \<open>inode_alloc\<close> does on a record without pointers when the free map has enough
  sectors for the direct and the single-indirect range: the first loop fills the \<open>nd\<close>
  direct pointers, the height-1 call allocates the indirect block and its 128 entries, and
  the remaining count \<open>k\<close> goes to the height-2 call. For \<open>k < 128\<close> that call
  computes \<open>limit = k / 128 = 0\<close> in both rounds of its \<^verbatim>\<open>while\<close> loop (\<^verbatim>\<open>unit\<close> stays
  128 in the second round), so it allocates the doubly-indirect block, if it can, and
  returns true without a child block. The result of its \<^verbatim>\<open>free_map_allocate\<close> for the
  block is not looked at.
\<close>

lemma le_words_replicate: "le_words (replicate (4 * n) 0) = replicate n 0"
proof (induction n)
  case 0
  then show ?case by simp
next
  case (Suc n)
  have "replicate (4 * Suc n) (0::byte) = 0 # 0 # 0 # 0 # replicate (4 * n) 0"
    by (simp add: numeral_eq_Suc)
  then show ?case using Suc by simp
qed

lemma ptrs_of_zeros: "ptrs_of zeros = replicate 128 0"
  using le_words_replicate[of 128] by (simp add: ptrs_of_def zeros_def)

lemma inode_alloc_direct_fresh:
  assumes "\<forall>j. index \<le> j \<and> j < limit \<longrightarrow> direct_blocks d ! j = 0"
    and "limit - index < sector_size"
    and "limit - index \<le> length (free_map st)"
  shows "\<exists>d' st'. inode_alloc_direct st d sector_size index limit
                     = (None, sector_size - (limit - index), d', st')
           \<and> free_map st' = drop (limit - index) (free_map st)
           \<and> indirect_block d' = indirect_block d
           \<and> doubly_indirect_block d' = doubly_indirect_block d"
  using assms
proof (induction "limit - index" arbitrary: index st d sector_size)
  case 0
  then show ?case by (subst inode_alloc_direct.simps) simp
next
  case (Suc n)
  from Suc.hyps(2) have lt: "index < limit" and n: "n = limit - (index + 1)" by simp_all
  from Suc.prems(1) lt have z: "direct_blocks d ! index = 0" by simp
  from Suc.prems(3) Suc.hyps(2) obtain s rest where fm: "free_map st = s # rest"
    by (cases "free_map st") simp_all
  let ?st1 = "st\<lparr>free_map := rest, trace := Ev_alloc (Some s) # trace st\<rparr>"
  let ?st2 = "block_write ?st1 s zeros"
  let ?d1 = "d\<lparr>direct_blocks := (direct_blocks d)[index := s]\<rparr>"
  have a: "free_map_allocate st = (Some s, ?st1)" by (simp add: free_map_allocate_def fm)
  have ss: "\<not> sector_size - 1 \<le> 0" using Suc.prems(2) Suc.hyps(2) by simp
  have step: "inode_alloc_direct st d sector_size index limit
              = inode_alloc_direct ?st2 ?d1 (sector_size - 1) (index + 1) limit"
    using lt z a ss by (subst inode_alloc_direct.simps) (simp add: Let_def)
  have p1: "\<forall>j. index + 1 \<le> j \<and> j < limit \<longrightarrow> direct_blocks ?d1 ! j = 0"
    using Suc.prems(1) by simp
  have p2: "limit - (index + 1) < sector_size - 1" using Suc.prems(2) Suc.hyps(2) by simp
  have p3: "limit - (index + 1) \<le> length (free_map ?st2)"
    using Suc.prems(3) Suc.hyps(2) fm by (simp add: block_write_def)
  from Suc.hyps(1)[OF n p1 p2 p3] obtain d' st' where
    r: "inode_alloc_direct ?st2 ?d1 (sector_size - 1) (index + 1) limit
          = (None, sector_size - 1 - (limit - (index + 1)), d', st')"
       "free_map st' = drop (limit - (index + 1)) (free_map ?st2)"
       "indirect_block d' = indirect_block ?d1" "doubly_indirect_block d' = doubly_indirect_block ?d1"
    by blast
  have e: "sector_size - 1 - (limit - (index + 1)) = sector_size - (limit - index)" using lt by simp
  have f: "drop (limit - (index + 1)) (free_map ?st2) = drop (limit - index) (free_map st)"
    using lt fm Suc.hyps(2) by (simp add: block_write_def Suc_diff_Suc[symmetric] del: Suc_diff_Suc)
  show ?case
    using step r e f by simp
qed


lemma alloc_for_fresh:
  assumes "\<forall>j. index \<le> j \<and> j < limit \<longrightarrow> blk ! j = 0"
    and "limit - index \<le> sector_size"
    and "limit - index \<le> length (free_map st)"
  shows "\<exists>st'. alloc_for st sec blk sector_size (Suc 0) (Suc 0) index limit
                  = (True, sector_size - (limit - index), st')
           \<and> free_map st' = drop (limit - index) (free_map st)"
  using assms
proof (induction "limit - index" arbitrary: index st blk sector_size)
  case 0
  then show ?case by (subst alloc_for.simps) simp
next
  case (Suc n)
  from Suc.hyps(2) have lt: "index < limit" and n: "n = limit - (index + 1)" by simp_all
  from Suc.prems(1) lt have z: "blk ! index = 0" by simp
  from Suc.prems(3) Suc.hyps(2) obtain s rest where fm: "free_map st = s # rest"
    by (cases "free_map st") simp_all
  let ?st1 = "st\<lparr>free_map := rest, trace := Ev_alloc (Some s) # trace st\<rparr>"
  let ?st3 = "block_write (block_write ?st1 s zeros) sec (Index (blk[index := s]))"
  have a: "free_map_allocate st = (Some s, ?st1)" by (simp add: free_map_allocate_def fm)
  have ss: "\<not> sector_size < Suc 0" using Suc.prems(2) Suc.hyps(2) by simp
  have step: "alloc_for st sec blk sector_size (Suc 0) (Suc 0) index limit
              = alloc_for ?st3 sec (blk[index := s]) (sector_size - Suc 0) (Suc 0) (Suc 0) (index + 1) limit"
    using lt z a ss by (subst alloc_for.simps) (simp add: Let_def)
  have p1: "\<forall>j. index + 1 \<le> j \<and> j < limit \<longrightarrow> blk[index := s] ! j = 0"
    using Suc.prems(1) by simp
  have p2: "limit - (index + 1) \<le> sector_size - Suc 0" using Suc.prems(2) Suc.hyps(2) by simp
  have p3: "limit - (index + 1) \<le> length (free_map ?st3)"
    using Suc.prems(3) Suc.hyps(2) fm by (simp add: block_write_def)
  from Suc.hyps(1)[OF n p1 p2 p3] obtain st' where
    r: "alloc_for ?st3 sec (blk[index := s]) (sector_size - Suc 0) (Suc 0) (Suc 0) (index + 1) limit
          = (True, sector_size - Suc 0 - (limit - (index + 1)), st')"
       "free_map st' = drop (limit - (index + 1)) (free_map ?st3)"
    by blast
  have e: "sector_size - Suc 0 - (limit - (index + 1)) = sector_size - (limit - index)" using lt by simp
  have f: "drop (limit - (index + 1)) (free_map ?st3) = drop (limit - index) (free_map st)"
    using lt fm Suc.hyps(2) by (simp add: block_write_def Suc_diff_Suc[symmetric] del: Suc_diff_Suc)
  show ?case
    using step r e f by simp
qed

lemma inode_alloc_iblock_fresh_1:
  assumes c: "0 < cnt" "cnt \<le> 128" and f: "Suc cnt \<le> length (free_map st)"
  shows "\<exists>s st'. inode_alloc_iblock st 0 cnt 1 = (True, s, st')
            \<and> free_map st' = drop (Suc cnt) (free_map st)"
proof -
  from f obtain s rest where fm: "free_map st = s # rest" by (cases "free_map st") simp_all
  let ?st1 = "block_write (st\<lparr>free_map := rest, trace := Ev_alloc (Some s) # trace st\<rparr>) s zeros"
  let ?st2 = "?st1\<lparr>trace := Ev_read s # trace ?st1\<rparr>"
  have a: "free_map_allocate st = (Some s, st\<lparr>free_map := rest, trace := Ev_alloc (Some s) # trace st\<rparr>)"
    by (simp add: free_map_allocate_def fm)
  have r: "block_read ?st1 s = (zeros, ?st2)" by (simp add: block_read_def block_write_def)
  have p1: "\<forall>j. 0 \<le> j \<and> j < cnt \<longrightarrow> replicate 128 (0::block_sector_t) ! j = 0" using c by simp
  have p3: "cnt - 0 \<le> length (free_map ?st2)" using f fm by (simp add: block_write_def)
  from alloc_for_fresh[OF p1 _ p3, of cnt s] obtain st' where
    l: "alloc_for ?st2 s (replicate 128 0) cnt (Suc 0) (Suc 0) 0 cnt = (True, cnt - (cnt - 0), st')"
       "free_map st' = drop (cnt - 0) (free_map ?st2)"
    by auto
  have "inode_alloc_iblock st 0 cnt 1 = (True, s, st')"
    apply (simp add: inode_alloc_iblock.simps)
    apply (subst alloc_while.simps)
    apply (simp add: a r Let_def ptrs_of_zeros l)
    apply (subst alloc_while.simps)
    apply simp
    done
  moreover have "free_map st' = drop (Suc cnt) (free_map st)"
    using l(2) fm by (simp add: block_write_def)
  ultimately show ?thesis by blast
qed

lemma inode_alloc_iblock_2_partial:
  assumes c: "cnt < 128" and fm: "free_map st = s # rest" and s: "s \<noteq> 0"
  shows "inode_alloc_iblock st 0 cnt 2 =
           (True, s, st\<lparr>disk := (disk st)(s := zeros), free_map := rest,
                       trace := [Ev_read s, Ev_read s, Ev_write s zeros, Ev_alloc (Some s)] @ trace st\<rparr>)"
  apply (simp add: inode_alloc_iblock.simps)
  apply (subst alloc_while.simps)
  apply (simp add: free_map_allocate_def fm Let_def block_read_def block_write_def c)
  apply (subst alloc_for.simps)
  apply simp
  apply (subst alloc_while.simps)
  apply (simp add: s Let_def block_read_def c)
  apply (subst alloc_for.simps)
  apply simp
  apply (subst alloc_while.simps)
  apply simp
  done

lemma inode_alloc_iblock_2_exhausted:
  assumes c: "cnt < 128" and fm: "free_map st = []"
  shows "inode_alloc_iblock st 0 cnt 2 =
           (True, 0, st\<lparr>disk := (disk st)(0 := zeros),
                       trace := [Ev_read 0, Ev_write 0 zeros, Ev_alloc None,
                                 Ev_read 0, Ev_write 0 zeros, Ev_alloc None] @ trace st\<rparr>)"
  apply (simp add: inode_alloc_iblock.simps)
  apply (subst alloc_while.simps)
  apply (simp add: free_map_allocate_def fm Let_def block_read_def block_write_def c)
  apply (subst alloc_for.simps)
  apply simp
  apply (subst alloc_while.simps)
  apply (simp add: free_map_allocate_def fm Let_def block_read_def block_write_def c)
  apply (subst alloc_for.simps)
  apply simp
  apply (subst alloc_while.simps)
  apply simp
  done


lemma inode_alloc_fresh_double:
  assumes fresh: "\<forall>j. 0 \<le> j \<and> j < nd \<longrightarrow> direct_blocks d ! j = 0"
      "indirect_block d = 0" "doubly_indirect_block d = 0"
    and ss: "bytes_to_sectors len = nd + 128 + k" and k: "0 < k" "k < 128"
    and free: "nd + 129 \<le> length (free_map st)"
  shows "\<exists>d2 st2. doubly_indirect_block d2 = 0
           \<and> free_map st2 = drop (nd + 129) (free_map st)
           \<and> grows_by alloc_event st st2
           \<and> inode_alloc nd st d len =
               (case inode_alloc_iblock st2 0 k 2 of
                  (b, s, st3) \<Rightarrow> (b, d2\<lparr>doubly_indirect_block := s\<rparr>, st3))"
proof -
  have p2: "nd - 0 < nd + 128 + k" using k by simp
  have p3: "nd - 0 \<le> length (free_map st)" using free by simp
  from inode_alloc_direct_fresh[OF fresh(1) p2 p3] obtain d1 st1 where
    dl: "inode_alloc_direct st d (nd + 128 + k) 0 nd = (None, nd + 128 + k - (nd - 0), d1, st1)"
      "free_map st1 = drop (nd - 0) (free_map st)"
      "indirect_block d1 = indirect_block d" "doubly_indirect_block d1 = doubly_indirect_block d"
    by blast
  have g1: "grows_by alloc_event st st1" using dl(1) by (rule inode_alloc_direct_grows')
  have f1: "Suc 128 \<le> length (free_map st1)" using dl(2) free by simp
  from inode_alloc_iblock_fresh_1[OF _ _ f1] obtain s st2 where
    ib: "inode_alloc_iblock st1 0 128 1 = (True, s, st2)"
      "free_map st2 = drop (Suc 128) (free_map st1)"
    by auto
  have g2: "grows_by alloc_event st st2"
    using g1 inode_alloc_iblock_grows'[OF ib(1)] by (rule grows_by_trans)
  let ?d2 = "d1\<lparr>indirect_block := s\<rparr>"
  have a: "doubly_indirect_block ?d2 = 0" using dl(4) fresh(3) by simp
  have b: "free_map st2 = drop (nd + 129) (free_map st)"
    using ib(2) dl(2) by (simp add: add.commute)
  have e: "nd + 128 + k - nd = 128 + k" by simp
  have c: "inode_alloc nd st d len =
             (case inode_alloc_iblock st2 0 k 2 of
                (b, s', st3) \<Rightarrow> (b, ?d2\<lparr>doubly_indirect_block := s'\<rparr>, st3))"
    using k dl(1) ib(1) dl(3) fresh(2) a
    by (simp add: inode_alloc_def ss Let_def e split: prod.splits bool.splits)
  from a b g2 c show ?thesis by blast
qed


lemma wr_fresh:
  "\<forall>j. 0 \<le> j \<and> j < 123 \<longrightarrow> direct_blocks (data wr_inode) ! j = 0"
  "indirect_block (data wr_inode) = 0" "doubly_indirect_block (data wr_inode) = 0"
  by (simp_all add: wr_inode_def)

lemma free_tail: "drop 252 (map word_of_nat [20..<300]) = (272 :: block_sector_t) # map word_of_nat [273..<300]"
  by (simp add: drop_map upt_conv_Cons del: upt_rec_numeral)

text \<open>
  C2. The claim: the allocation succeeds only if every sector index below
  \<open>bytes_to_sectors target_length\<close> has a backing sector at every level, and a height-2
  call for \<open>count\<close> entries populates the first \<open>ceil (count / 128)\<close> outer entries. For
  an empty file with 123 direct pointers and the target length \<open>252 * 512\<close>, with 280 free
  sectors, the call returns true; the doubly-indirect block is sector 272 and it is all
  zero, so the outer entry 0 that should lead to sector index 251 is unallocated. A
  height-2 call for one entry only allocates the block itself.
\<close>

theorem inode_alloc_partial_child_unallocated:
  "fst (inode_alloc 123 (wr_state (map word_of_nat [20..<300])) (data wr_inode) (252 * 512)) = True
   \<and> bytes_to_sectors (252 * 512) = 252
   \<and> doubly_indirect_block
        (fst (snd (inode_alloc 123 (wr_state (map word_of_nat [20..<300])) (data wr_inode) (252 * 512)))) = 272
   \<and> ptrs_of (disk (snd (snd (inode_alloc 123 (wr_state (map word_of_nat [20..<300])) (data wr_inode)
                              (252 * 512)))) 272) ! ((251 - 123 - 128) div 128) = 0
   \<and> inode_alloc_iblock (wr_state [20]) 0 1 2 =
        (True, 20, (wr_state [20])\<lparr>disk := (disk (wr_state [20]))(20 := zeros), free_map := [],
                      trace := [Ev_read 20, Ev_read 20, Ev_write 20 zeros, Ev_alloc (Some 20)]\<rparr>)"
proof -
  let ?st = "wr_state (map word_of_nat [20..<300])"
  have ss: "bytes_to_sectors (252 * 512) = 123 + 128 + 1"
    by (simp add: bytes_to_sectors_def off_t_of_def sdiv_nonneg)
  have fr: "123 + 129 \<le> length (free_map ?st)" by (simp add: wr_state_def)
  from inode_alloc_fresh_double[OF wr_fresh ss _ _ fr] obtain d2 st2 where
    r: "doubly_indirect_block d2 = 0" "free_map st2 = drop (123 + 129) (free_map ?st)"
       "inode_alloc 123 ?st (data wr_inode) (252 * 512) =
          (case inode_alloc_iblock st2 0 1 2 of (b, s, st3) \<Rightarrow> (b, d2\<lparr>doubly_indirect_block := s\<rparr>, st3))"
    by auto
  have fm: "free_map st2 = 272 # map word_of_nat [273..<300]"
    using r(2) free_tail by (simp add: wr_state_def)
  have a: "inode_alloc 123 ?st (data wr_inode) (252 * 512) =
          (True, d2\<lparr>doubly_indirect_block := 272\<rparr>,
           st2\<lparr>disk := (disk st2)(272 := zeros), free_map := map word_of_nat [273..<300],
               trace := [Ev_read 272, Ev_read 272, Ev_write 272 zeros, Ev_alloc (Some 272)] @ trace st2\<rparr>)"
    unfolding r(3) by (simp add: inode_alloc_iblock_2_partial[OF _ fm])
  have b: "inode_alloc_iblock (wr_state [20]) 0 1 2 =
        (True, 20, (wr_state [20])\<lparr>disk := (disk (wr_state [20]))(20 := zeros), free_map := [],
                      trace := [Ev_read 20, Ev_read 20, Ev_write 20 zeros, Ev_alloc (Some 20)]\<rparr>)"
    using inode_alloc_iblock_2_partial[of 1 "wr_state [20]" 20 "[]"] by (simp add: wr_state_def)
  have c: "bytes_to_sectors (252 * 512) = 252" using ss by simp
  show ?thesis
    unfolding a by (intro conjI c b) (simp_all add: ptrs_of_zeros)
qed


text \<open>A false from \<open>inode_alloc\<close> does reach the caller of \<open>inode_create\<close>.\<close>

lemma inode_create_propagates:
  assumes "0 \<le> len"
    and "fst (inode_alloc nd st \<lparr>length_d = len, magic = INODE_MAGIC, dir = is_dir,
                           direct_blocks = replicate nd 0,
                           indirect_block = 0, doubly_indirect_block = 0\<rparr> len) = False"
  shows "fst (inode_create nd True st sec len is_dir) = Inr False
         \<and> grows_by alloc_event st (snd (inode_create nd True st sec len is_dir))"
proof -
  let ?d = "\<lparr>length_d = len, magic = INODE_MAGIC, dir = is_dir, direct_blocks = replicate nd 0,
             indirect_block = 0, doubly_indirect_block = 0\<rparr>"
  obtain d1 st1 where a: "inode_alloc nd st ?d len = (False, d1, st1)"
    using assms(2) by (metis fst_conv prod_cases3)
  have "grows_by alloc_event st st1" using inode_alloc_grows[of st nd ?d len] a by simp
  then show ?thesis using assms(1) a by (simp add: inode_create_def)
qed

text \<open>
  C5. The claim: whenever a request to the free map fails, also the one for an indirection
  block, the whole allocation fails, and \<open>inode_create\<close> reports failure. With exactly
  252 free sectors, creating a file of \<open>252 * 512\<close> bytes uses them all for the direct
  sectors, the indirect block and its 128 entries; the request for the doubly-indirect
  block fails, twice, the code writes \<open>zeros\<close> to the sector its slot holds, which is
  sector 0, and \<open>inode_create\<close> returns true.
\<close>

theorem inode_create_ignores_failed_request:
  "fst (inode_create 123 True (wr_state (map word_of_nat [20..<272])) 9 (252 * 512) False) = Inr True
   \<and> free_map (snd (inode_create 123 True (wr_state (map word_of_nat [20..<272])) 9 (252 * 512) False)) = []
   \<and> tl (take 7 (trace (snd (inode_create 123 True (wr_state (map word_of_nat [20..<272])) 9 (252 * 512) False))))
       = [Ev_read 0, Ev_write 0 zeros, Ev_alloc None, Ev_read 0, Ev_write 0 zeros, Ev_alloc None]"
proof -
  let ?st = "wr_state (map word_of_nat [20..<272])"
  let ?d = "\<lparr>length_d = 252 * 512, magic = INODE_MAGIC, dir = False, direct_blocks = replicate 123 0,
             indirect_block = 0, doubly_indirect_block = 0\<rparr>"
  have ss: "bytes_to_sectors (252 * 512) = 123 + 128 + 1"
    by (simp add: bytes_to_sectors_def off_t_of_def sdiv_nonneg)
  have fr: "123 + 129 \<le> length (free_map ?st)" by (simp add: wr_state_def)
  have f1: "\<forall>j. 0 \<le> j \<and> j < 123 \<longrightarrow> direct_blocks ?d ! j = 0" by simp
  from inode_alloc_fresh_double[OF f1 _ _ ss _ _ fr] obtain d2 st2 where
    r: "free_map st2 = drop (123 + 129) (free_map ?st)"
       "inode_alloc 123 ?st ?d (252 * 512) =
          (case inode_alloc_iblock st2 0 1 2 of (b, s, st3) \<Rightarrow> (b, d2\<lparr>doubly_indirect_block := s\<rparr>, st3))"
    by auto
  have fm: "free_map st2 = []" using r(1) by (simp add: wr_state_def)
  have a: "inode_alloc 123 ?st ?d (252 * 512) =
          (True, d2\<lparr>doubly_indirect_block := 0\<rparr>,
           st2\<lparr>disk := (disk st2)(0 := zeros),
               trace := [Ev_read 0, Ev_write 0 zeros, Ev_alloc None,
                         Ev_read 0, Ev_write 0 zeros, Ev_alloc None] @ trace st2\<rparr>)"
    unfolding r(2) by (simp add: inode_alloc_iblock_2_exhausted[OF _ fm])
  have c: "inode_create 123 True ?st 9 (252 * 512) False =
          (Inr True, block_write (st2\<lparr>disk := (disk st2)(0 := zeros),
               trace := [Ev_read 0, Ev_write 0 zeros, Ev_alloc None,
                         Ev_read 0, Ev_write 0 zeros, Ev_alloc None] @ trace st2\<rparr>) 9
               (Record (d2\<lparr>doubly_indirect_block := 0\<rparr>)))"
    unfolding inode_create_def Let_def by (simp add: a[simplified])
  show ?thesis
    unfolding c by (simp add: block_write_def fm)
qed


lemma write_loop_double_oob:
  assumes "0 < sz" "offset < length_d (data inode)"
    and "(int nd + 128) * 512 \<le> offset" "offset < (int nd + 128 + 16384) * 512"
  shows "fst (write_loop nd bounce_ok st inode buffer sz offset bytes_written bounce) = Inl Out_of_bounds"
  using byte_to_sector_double_oob[OF assms(2-4), of st] assms(1)
  by (subst write_loop.simps) (auto split: prod.splits sum.splits)

text \<open>
  C8. The claim: after a write at an offset beyond the end of a file, the gap reads as
  zeros. An empty file is written one byte at offset \<open>252 * 512\<close>: the growth succeeds
  and the length becomes \<open>252 * 512 + 1\<close>, but the position written and the gap's last
  sector, index 251, lie in the doubly-indirect range, where the code reads past the end of
  the pointer block (C4) and where no child block was allocated (C2). Neither the write nor
  the read of the 512 gap bytes from \<open>251 * 512\<close> returns.
\<close>

theorem growth_into_double_indirect_range_unreadable:
  "fst (inode_write_at 123 True (wr_state (map word_of_nat [20..<300])) wr_inode [7] 1 (252 * 512))
     = Inl Out_of_bounds
   \<and> length_d (data (fst (snd (inode_write_at 123 True (wr_state (map word_of_nat [20..<300])) wr_inode
                                  [7] 1 (252 * 512))))) = 252 * 512 + 1
   \<and> fst (inode_read_at 123 True
            (snd (snd (inode_write_at 123 True (wr_state (map word_of_nat [20..<300])) wr_inode [7] 1 (252 * 512))))
            (fst (snd (inode_write_at 123 True (wr_state (map word_of_nat [20..<300])) wr_inode [7] 1 (252 * 512))))
            512 (251 * 512))
     = Inl Out_of_bounds"
proof -
  let ?st = "wr_state (map word_of_nat [20..<300])"
  have ss: "bytes_to_sectors (252 * 512 + 1) = 123 + 128 + 2"
    by (simp add: bytes_to_sectors_def off_t_of_def sdiv_nonneg)
  have fr: "123 + 129 \<le> length (free_map ?st)" by (simp add: wr_state_def)
  from inode_alloc_fresh_double[OF wr_fresh ss _ _ fr] obtain d2 st2 where
    r: "free_map st2 = drop (123 + 129) (free_map ?st)"
       "inode_alloc 123 ?st (data wr_inode) (252 * 512 + 1) =
          (case inode_alloc_iblock st2 0 2 2 of (b, s, st3) \<Rightarrow> (b, d2\<lparr>doubly_indirect_block := s\<rparr>, st3))"
    by auto
  have fm: "free_map st2 = 272 # map word_of_nat [273..<300]"
    using r(1) free_tail by (simp add: wr_state_def)
  obtain st3 where a: "inode_alloc 123 ?st (data wr_inode) (252 * 512 + 1) =
          (True, d2\<lparr>doubly_indirect_block := 272\<rparr>, st3)"
    unfolding r(2) by (simp add: inode_alloc_iblock_2_partial[OF _ fm])
  let ?i1 = "wr_inode\<lparr>data := d2\<lparr>doubly_indirect_block := 272, length_d := 252 * 512 + 1\<rparr>\<rparr>"
  let ?st4 = "block_write st3 (sector ?i1) (Record (data ?i1))"
  have l: "inode_length wr_inode = 0" "deny_write_cnt wr_inode = 0"
    by (simp_all add: inode_length_def wr_inode_def)
  have o: "off_t_of (252 * 512 + 1) = 252 * 512 + 1" by (simp add: off_t_of_def)
  have w: "inode_write_at 123 True ?st wr_inode [7] 1 (252 * 512) =
             (fst (write_loop 123 True ?st4 ?i1 [7] 1 (252 * 512) 0 False), ?i1,
              snd (write_loop 123 True ?st4 ?i1 [7] 1 (252 * 512) 0 False))"
    unfolding inode_write_at_def Let_def o using l a[simplified]
    by (simp split: prod.splits)
  have w1: "fst (write_loop 123 True ?st4 ?i1 [7] 1 (252 * 512) 0 False) = Inl Out_of_bounds"
    by (rule write_loop_double_oob) simp_all
  have r1: "fst (read_loop 123 True st' ?i1 512 (251 * 512) 0 [] False) = Inl Out_of_bounds" for st' :: fs_state
    by (rule read_loop_double_oob) simp_all
  show ?thesis
    unfolding w inode_read_at_def using w1 r1 by simp
qed

text \<open>
  C3. The claim: a second call with the same target length leaves every pointer untouched
  and requests no sector. The first loop of \<open>inode_alloc\<close> decrements the count only
  when it allocates, so on the second call for one sector the count is still 1 after the
  direct pointers: the call allocates an indirect block (sector 21) and a data sector for
  its first entry (sector 22), and sets the record's indirect pointer.
\<close>

theorem inode_alloc_second_call_allocates:
  "inode_alloc 123 (wr_state [20, 21, 22]) (data wr_inode) 512 =
     (True, (data wr_inode)\<lparr>direct_blocks := 20 # replicate 122 0\<rparr>,
      \<lparr>disk = (\<lambda>s. zeros)(9 := Record (data wr_inode), 20 := zeros), free_map = [21, 22],
       trace = [Ev_write 20 zeros, Ev_alloc (Some 20)]\<rparr>)
   \<and> inode_alloc 123
        \<lparr>disk = (\<lambda>s. zeros)(9 := Record (data wr_inode), 20 := zeros), free_map = [21, 22],
         trace = [Ev_write 20 zeros, Ev_alloc (Some 20)]\<rparr>
        ((data wr_inode)\<lparr>direct_blocks := 20 # replicate 122 0\<rparr>) 512 =
     (True, (data wr_inode)\<lparr>direct_blocks := 20 # replicate 122 0, indirect_block := 21\<rparr>,
      \<lparr>disk = (\<lambda>s. zeros)(9 := Record (data wr_inode), 20 := zeros,
                 21 := Index (22 # replicate 127 0), 22 := zeros),
       free_map = [],
       trace = [Ev_write 21 (Index (22 # replicate 127 0)), Ev_write 22 zeros, Ev_alloc (Some 22),
                Ev_read 21, Ev_write 21 zeros, Ev_alloc (Some 21),
                Ev_write 20 zeros, Ev_alloc (Some 20)]\<rparr>)"
proof -
  have ss: "bytes_to_sectors 512 = 1" by (simp add: bytes_to_sectors_def off_t_of_def sdiv_nonneg)
  have a: "inode_alloc 123 (wr_state [20, 21, 22]) (data wr_inode) 512 =
     (True, (data wr_inode)\<lparr>direct_blocks := 20 # replicate 122 0\<rparr>,
      \<lparr>disk = (\<lambda>s. zeros)(9 := Record (data wr_inode), 20 := zeros), free_map = [21, 22],
       trace = [Ev_write 20 zeros, Ev_alloc (Some 20)]\<rparr>)"
    by (simp add: inode_alloc_def ss inode_alloc_direct.simps wr_inode_def
      wr_state_def free_map_allocate_def block_write_def Let_def replicate_update_0)
  have b: "inode_alloc 123
        \<lparr>disk = (\<lambda>s. zeros)(9 := Record (data wr_inode), 20 := zeros), free_map = [21, 22],
         trace = [Ev_write 20 zeros, Ev_alloc (Some 20)]\<rparr>
        ((data wr_inode)\<lparr>direct_blocks := 20 # replicate 122 0\<rparr>) 512 =
     (True, (data wr_inode)\<lparr>direct_blocks := 20 # replicate 122 0, indirect_block := 21\<rparr>,
      \<lparr>disk = (\<lambda>s. zeros)(9 := Record (data wr_inode), 20 := zeros,
                 21 := Index (22 # replicate 127 0), 22 := zeros),
       free_map = [],
       trace = [Ev_write 21 (Index (22 # replicate 127 0)), Ev_write 22 zeros, Ev_alloc (Some 22),
                Ev_read 21, Ev_write 21 zeros, Ev_alloc (Some 21),
                Ev_write 20 zeros, Ev_alloc (Some 20)]\<rparr>)"
    apply (simp add: inode_alloc_def ss Let_def)
    apply (subst inode_alloc_direct.simps, simp)
    apply (subst inode_alloc_direct.simps, simp)
    apply (simp add: inode_alloc_iblock.simps wr_inode_def)
    apply (subst alloc_while.simps)
    apply (simp add: free_map_allocate_def block_write_def block_read_def Let_def ptrs_of_zeros)
    apply (subst alloc_for.simps)
    apply (simp add: free_map_allocate_def block_write_def block_read_def Let_def replicate_update_0)
    apply (subst alloc_for.simps, simp)
    apply (subst alloc_while.simps, simp)
    apply (simp add: fun_upd_twist wr_inode_def)
    done
  from a b show ?thesis by (rule conjI)
qed

end
